theory Spec2Isabelle
  imports Main "HOL-Library.AList" "HOL-Library.Char_ord" "HOL-Library.List_Lexorder"
begin

section \<open>Updown: an HTTP file-sharing server\<close>

text \<open>
  The program is one Go file (the reference variant, with directory listing, download and
  upload) and a minimal variant with the same method router and an upload handler that
  discards what it reads. Go strings are byte strings: \<open>string\<close> here. The handlers
  work on three things that are not theirs: the response writer, the filesystem and the
  multipart reader of the request. Each is modelled below by a small state with the
  operations the handlers call, named as in Go's library.
\<close>

subsection \<open>Error values\<close>

text \<open>
  An error is \<open>io.EOF\<close>, an error that wraps another (\<open>fmt.Errorf\<close> with \<open>%w\<close>: the
  multipart reader wraps what the connection gave it), or any other error, with its text.
  \<open>errors.Is(err, io.EOF)\<close> follows the chain of wrapped errors; a nil error is no
  \<open>io.EOF\<close>.
\<close>

datatype error = EOF | Wrapped string error | Failure string

fun unwraps_to_EOF :: "error \<Rightarrow> bool" where
  "unwraps_to_EOF EOF = True"
| "unwraps_to_EOF (Wrapped msg e) = unwraps_to_EOF e"
| "unwraps_to_EOF (Failure msg) = False"

definition errors_Is_EOF :: "error option \<Rightarrow> bool" where
  "errors_Is_EOF err = (case err of None \<Rightarrow> False | Some e \<Rightarrow> unwraps_to_EOF e)"

fun error_text :: "error \<Rightarrow> string" where
  "error_text EOF = ''EOF''"
| "error_text (Wrapped msg e) = msg @ error_text e"
| "error_text (Failure msg) = msg"

text \<open>A handler that dereferences a nil pointer panics; the server then drops the connection.\<close>

datatype panic = NilPointerDereference

subsection \<open>Package path\<close>

definition slash :: char where
  "slash = CHR ''/''"

fun split_slash :: "string \<Rightarrow> string list" where
  "split_slash [] = [[]]"
| "split_slash (c # cs) =
     (if c = slash then [] # split_slash cs
      else (case split_slash cs of [] \<Rightarrow> [[c]] | x # xs \<Rightarrow> (c # x) # xs))"

fun join_slash :: "string list \<Rightarrow> string" where
  "join_slash [] = []"
| "join_slash [x] = x"
| "join_slash (x # y # ys) = x @ slash # join_slash (y # ys)"

text \<open>
  \<open>path.Clean\<close>, by the four rules of its documentation: multiple slashes become one,
  every \<open>.\<close> element goes, an inner \<open>..\<close> goes with the element before it, and a
  \<open>..\<close> that begins a rooted path goes. The empty result is \<open>.\<close>.
\<close>

definition clean_step :: "bool \<Rightarrow> string list \<Rightarrow> string \<Rightarrow> string list" where
  "clean_step rooted out c =
     (if c = [] \<or> c = ''.'' then out
      else if c = ''..'' then
        (if out \<noteq> [] \<and> last out \<noteq> ''..'' then butlast out
         else if rooted then out
         else out @ [c])
      else out @ [c])"

definition IsAbs :: "string \<Rightarrow> bool" where
  "IsAbs p = (case p of [] \<Rightarrow> False | c # cs \<Rightarrow> c = slash)"

definition path_Clean :: "string \<Rightarrow> string" where
  "path_Clean p =
     (let rooted = IsAbs p;
          out = foldl (clean_step rooted) [] (split_slash p)
      in if rooted then slash # join_slash out
         else if out = [] then ''.''
         else join_slash out)"

text \<open>
  \<open>path.Join\<close>: the non-empty elements, joined by slashes and cleaned; the empty string
  when every element is empty.
\<close>

definition path_Join :: "string list \<Rightarrow> string" where
  "path_Join elem =
     (let parts = filter (\<lambda>e. e \<noteq> []) elem
      in if parts = [] then [] else path_Clean (join_slash parts))"

text \<open>
  \<open>path.Base\<close>: the last element of the path, after trailing slashes are removed;
  \<open>.\<close> for the empty path and \<open>/\<close> for a path of slashes only.
\<close>

definition path_Base :: "string \<Rightarrow> string" where
  "path_Base p =
     (if p = [] then ''.''
      else
        (let stripped = rev (dropWhile (\<lambda>c. c = slash) (rev p));
             last_elem = rev (takeWhile (\<lambda>c. c \<noteq> slash) (rev stripped))
         in if last_elem = [] then ''/'' else last_elem))"

subsection \<open>The response writer\<close>

text \<open>
  \<open>http.ResponseWriter\<close>, as \<open>httptest.ResponseRecorder\<close> records it: the header map
  (keys in canonical form), the status code once it is written, and the body. The first
  \<open>WriteHeader\<close> fixes the status; a \<open>Write\<close> before any \<open>WriteHeader\<close> fixes it to
  200; a later \<open>WriteHeader\<close> changes nothing (the server logs it as superfluous), which is
  kept in \<open>Superfluous\<close>. A response whose handler wrote no status goes out as 200.
\<close>

record response =
  Header :: "string \<Rightarrow> string list"
  Code :: "nat option"
  Body :: string
  Superfluous :: "nat list"

definition new_response :: response where
  "new_response = \<lparr>Header = (\<lambda>k. []), Code = None, Body = [], Superfluous = []\<rparr>"

definition StatusCode :: "response \<Rightarrow> nat" where
  "StatusCode rw = (case Code rw of None \<Rightarrow> 200 | Some c \<Rightarrow> c)"

definition is_lower :: "char \<Rightarrow> bool" where
  "is_lower c = (CHR ''a'' \<le> c \<and> c \<le> CHR ''z'')"

definition is_upper :: "char \<Rightarrow> bool" where
  "is_upper c = (CHR ''A'' \<le> c \<and> c \<le> CHR ''Z'')"

definition is_digit :: "char \<Rightarrow> bool" where
  "is_digit c = (CHR ''0'' \<le> c \<and> c \<le> CHR ''9'')"

definition to_upper :: "char \<Rightarrow> char" where
  "to_upper c = (if is_lower c then char_of (of_char c - (32::nat)) else c)"

definition to_lower :: "char \<Rightarrow> char" where
  "to_lower c = (if is_upper c then char_of (of_char c + (32::nat)) else c)"

text \<open>
  \<open>textproto.CanonicalMIMEHeaderKey\<close> on a key of letters, digits and hyphens: the first
  letter and every letter after a hyphen in upper case, the rest in lower case.
\<close>

fun canonical :: "bool \<Rightarrow> string \<Rightarrow> string" where
  "canonical up [] = []"
| "canonical up (c # cs) = (if up then to_upper c else to_lower c) # canonical (c = CHR ''-'') cs"

definition CanonicalHeaderKey :: "string \<Rightarrow> string" where
  "CanonicalHeaderKey k = canonical True k"

definition Header_Add :: "string \<Rightarrow> string \<Rightarrow> response \<Rightarrow> response" where
  "Header_Add k v rw =
     rw\<lparr>Header := (Header rw)(CanonicalHeaderKey k := Header rw (CanonicalHeaderKey k) @ [v])\<rparr>"

definition Header_Set :: "string \<Rightarrow> string \<Rightarrow> response \<Rightarrow> response" where
  "Header_Set k v rw = rw\<lparr>Header := (Header rw)(CanonicalHeaderKey k := [v])\<rparr>"

definition WriteHeader :: "nat \<Rightarrow> response \<Rightarrow> response" where
  "WriteHeader code rw =
     (case Code rw of
        None \<Rightarrow> rw\<lparr>Code := Some code\<rparr>
      | Some c \<Rightarrow> rw\<lparr>Superfluous := Superfluous rw @ [code]\<rparr>)"

definition Write :: "string \<Rightarrow> response \<Rightarrow> response" where
  "Write b rw =
     (let rw1 = (case Code rw of None \<Rightarrow> rw\<lparr>Code := Some 200\<rparr> | Some c \<Rightarrow> rw)
      in rw1\<lparr>Body := Body rw1 @ b\<rparr>)"

definition newline :: string where
  "newline = [CHR 0x0A]"

text \<open>
  \<open>http.Error\<close> sets the two headers, writes the status and prints the message with
  \<open>fmt.Fprintln\<close>: the message and a newline. \<open>http.NotFound\<close> is \<open>http.Error\<close> with
  its fixed text and 404.
\<close>

definition http_Error :: "string \<Rightarrow> nat \<Rightarrow> response \<Rightarrow> response" where
  "http_Error msg code rw =
     Write (msg @ newline)
       (WriteHeader code
         (Header_Set ''X-Content-Type-Options'' ''nosniff''
           (Header_Set ''Content-Type'' ''text/plain; charset=utf-8'' rw)))"

definition http_NotFound :: "response \<Rightarrow> response" where
  "http_NotFound rw = http_Error ''404 page not found'' 404 rw"

subsection \<open>Package net/url\<close>

text \<open>
  \<open>url.QueryEscape\<close>: letters, digits and \<open>- _ . ~\<close> stay, a space becomes \<open>+\<close>, every
  other byte becomes \<open>%XX\<close> with upper-case hexadecimal digits.
\<close>

definition shouldEscape :: "char \<Rightarrow> bool" where
  "shouldEscape c = (\<not> (is_lower c \<or> is_upper c \<or> is_digit c \<or> c \<in> set ''-_.~''))"

definition upperhex :: "nat \<Rightarrow> char" where
  "upperhex n = ''0123456789ABCDEF'' ! (n mod 16)"

definition escape_byte :: "char \<Rightarrow> string" where
  "escape_byte c =
     (if c = CHR '' '' then ''+''
      else if shouldEscape c then [CHR ''%'', upperhex (of_char c div 16), upperhex (of_char c mod 16)]
      else [c])"

definition url_QueryEscape :: "string \<Rightarrow> string" where
  "url_QueryEscape s = concat (map escape_byte s)"

text \<open>
  \<open>url.Values\<close> maps a key to its values. \<open>query[key]\<close> of a missing key is the nil slice.
  \<open>Set\<close> replaces the values of a key by one value. \<open>Encode\<close> writes \<open>key=value\<close> pairs,
  both escaped, sorted by key and joined by \<open>&\<close>.
\<close>

type_synonym url_Values = "(string \<times> string list) list"

definition Values_index :: "url_Values \<Rightarrow> string \<Rightarrow> string list" where
  "Values_index query key = (case map_of query key of None \<Rightarrow> [] | Some vs \<Rightarrow> vs)"

definition Values_Set :: "string \<Rightarrow> string \<Rightarrow> url_Values \<Rightarrow> url_Values" where
  "Values_Set key v query = AList.update key [v] query"

fun join_amp :: "string list \<Rightarrow> string" where
  "join_amp [] = []"
| "join_amp [x] = x"
| "join_amp (x # y # ys) = x @ CHR ''&'' # join_amp (y # ys)"

definition Values_Encode :: "url_Values \<Rightarrow> string" where
  "Values_Encode query =
     join_amp (concat (map (\<lambda>(k, vs). map (\<lambda>v. url_QueryEscape k @ CHR ''='' # url_QueryEscape v) vs)
                         (sort_key fst query)))"

text \<open>
  A parsed URL, as far as the handlers use one: its path and its raw query. \<open>url.Parse\<close>
  is modelled on the strings the handlers give it, a rooted path of letters, digits,
  \<open>- _ . ~\<close> and slashes: such a string parses to that path with no query, and prints as
  itself. On any other string the model returns an error, and follows net/url no further.
\<close>

record url =
  Path :: string
  RawQuery :: string

definition plain_path :: "string \<Rightarrow> bool" where
  "plain_path p = (IsAbs p \<and> list_all (\<lambda>c. \<not> shouldEscape c \<or> c = slash) p)"

definition url_Parse :: "string \<Rightarrow> error + url" where
  "url_Parse rawURL =
     (if plain_path rawURL then Inr \<lparr>Path = rawURL, RawQuery = []\<rparr>
      else Inl (Failure (''parse '' @ rawURL)))"

definition url_String :: "url \<Rightarrow> string" where
  "url_String u = Path u @ (if RawQuery u = [] then [] else CHR ''?'' # RawQuery u)"

subsection \<open>The filesystem\<close>

text \<open>
  A tree of directories and regular files, without symbolic links. A directory lists its
  children by name. The kernel resolves a path from the root, or from the working
  directory of the process when the path is relative: \<open>.\<close> stays, \<open>..\<close> goes up (the
  root is its own parent). The paths the handlers open come out of \<open>path.Join\<close>, cleaned,
  so that a \<open>..\<close> only ever stands at the front of a relative path, where it leaves a
  directory that exists.
\<close>

datatype node = File string | Dir "(string \<times> node) list"

fun is_Dir :: "node \<Rightarrow> bool" where
  "is_Dir (Dir es) = True"
| "is_Dir (File b) = False"

fun lookup :: "node \<Rightarrow> string list \<Rightarrow> node option" where
  "lookup n [] = Some n"
| "lookup (File b) (c # cs) = None"
| "lookup (Dir es) (c # cs) = (case map_of es c of None \<Rightarrow> None | Some n \<Rightarrow> lookup n cs)"

text \<open>
  \<open>store n cs b\<close> puts a regular file with the bytes \<open>b\<close> at \<open>cs\<close>: it replaces a regular
  file, adds a child to an existing directory, and fails on a directory, below a regular
  file and below a directory that does not exist.
\<close>

fun store :: "node \<Rightarrow> string list \<Rightarrow> string \<Rightarrow> node option" where
  "store (File old) [] b = Some (File b)"
| "store (Dir es) [] b = None"
| "store (File old) (c # cs) b = None"
| "store (Dir es) (c # cs) b =
     (case map_of es c of
        None \<Rightarrow> (if cs = [] then Some (Dir (es @ [(c, File b)])) else None)
      | Some n \<Rightarrow>
          (case store n cs b of
             None \<Rightarrow> None
           | Some n' \<Rightarrow> Some (Dir (AList.update c n' es))))"

definition walk :: "string list \<Rightarrow> string \<Rightarrow> string list" where
  "walk at c =
     (if c = [] \<or> c = ''.'' then at
      else if c = ''..'' then butlast at
      else at @ [c])"

definition resolve :: "string option \<Rightarrow> string \<Rightarrow> string list option" where
  "resolve wd p =
     (if p = [] then None
      else if IsAbs p then Some (foldl walk [] (split_slash p))
      else (case wd of
              None \<Rightarrow> None
            | Some d \<Rightarrow> Some (foldl walk [] (split_slash d @ split_slash p))))"

subsection \<open>The state a handler runs in\<close>

text \<open>
  The filesystem, the working directory of the process (\<open>None\<close> when \<open>os.Getwd\<close> fails:
  the directory was removed), the error that the operating system gives when a file is
  closed (\<open>None\<close> when the close succeeds), the lines given to package log, the paths given
  to package os in the order of the calls, and the response writer of the request.
\<close>

datatype syscall = ReadDir string | Open string | Create string

record state =
  disk :: node
  workdir :: "string option"
  closeErr :: "error option"
  logged :: "string list"
  syscalls :: "syscall list"
  resp :: response

definition log_Printf :: "string \<Rightarrow> state \<Rightarrow> state" where
  "log_Printf line s = s\<lparr>logged := logged s @ [line]\<rparr>"

definition os_Getwd :: "state \<Rightarrow> error + string" where
  "os_Getwd s =
     (case workdir s of
        None \<Rightarrow> Inl (Failure ''getwd: no such file or directory'')
      | Some d \<Rightarrow> Inr d)"

text \<open>\<open>filepath.Abs\<close> on Unix: a rooted path is cleaned, any other is joined to the working directory.\<close>

definition filepath_Abs :: "string \<Rightarrow> state \<Rightarrow> error + string" where
  "filepath_Abs p s =
     (if IsAbs p then Inr (path_Clean p)
      else (case os_Getwd s of
              Inl err \<Rightarrow> Inl err
            | Inr wd \<Rightarrow> Inr (path_Join [wd, p])))"

record DirEntry =
  entry_Name :: string
  entry_IsDir :: bool

text \<open>\<open>os.ReadDir\<close> returns the entries of a directory sorted by file name.\<close>

definition os_ReadDir :: "string \<Rightarrow> state \<Rightarrow> (error + DirEntry list) \<times> state" where
  "os_ReadDir name s =
     (let s1 = s\<lparr>syscalls := syscalls s @ [ReadDir name]\<rparr>
      in case resolve (workdir s) name of
           None \<Rightarrow> (Inl (Failure (''open '' @ name @ '': no such file or directory'')), s1)
         | Some cs \<Rightarrow>
             (case lookup (disk s) cs of
                None \<Rightarrow> (Inl (Failure (''open '' @ name @ '': no such file or directory'')), s1)
              | Some (File b) \<Rightarrow> (Inl (Failure (''readdir '' @ name @ '': not a directory'')), s1)
              | Some (Dir es) \<Rightarrow>
                  (Inr (map (\<lambda>(n, child). \<lparr>entry_Name = n, entry_IsDir = is_Dir child\<rparr>)
                          (sort_key fst es)), s1)))"

text \<open>
  An open file is the place in the tree it was opened at. \<open>os.Open\<close> succeeds on a file
  and on a directory; reading a directory fails. \<open>os.Create\<close> makes the file or truncates
  it. Closing a file fails when the operating system says so.
\<close>

type_synonym os_File = "string list"

definition os_Open :: "string \<Rightarrow> state \<Rightarrow> (error + os_File) \<times> state" where
  "os_Open name s =
     (let s1 = s\<lparr>syscalls := syscalls s @ [Open name]\<rparr>
      in case resolve (workdir s) name of
           None \<Rightarrow> (Inl (Failure (''open '' @ name @ '': no such file or directory'')), s1)
         | Some cs \<Rightarrow>
             (case lookup (disk s) cs of
                None \<Rightarrow> (Inl (Failure (''open '' @ name @ '': no such file or directory'')), s1)
              | Some n \<Rightarrow> (Inr cs, s1)))"

definition os_Create :: "string \<Rightarrow> state \<Rightarrow> (error + os_File) \<times> state" where
  "os_Create name s =
     (let s1 = s\<lparr>syscalls := syscalls s @ [Create name]\<rparr>
      in case resolve (workdir s) name of
           None \<Rightarrow> (Inl (Failure (''open '' @ name @ '': no such file or directory'')), s1)
         | Some cs \<Rightarrow>
             (case store (disk s) cs [] of
                None \<Rightarrow> (Inl (Failure (''open '' @ name @ '': cannot create'')), s1)
              | Some d \<Rightarrow> (Inr cs, s1\<lparr>disk := d\<rparr>)))"

definition file_Read :: "os_File \<Rightarrow> state \<Rightarrow> string \<times> error option" where
  "file_Read f s =
     (case lookup (disk s) f of
        Some (File b) \<Rightarrow> (b, None)
      | Some (Dir es) \<Rightarrow> ([], Some (Failure ''read: is a directory''))
      | None \<Rightarrow> ([], Some (Failure ''read: stale file'')))"

definition file_Write :: "os_File \<Rightarrow> string \<Rightarrow> state \<Rightarrow> error option \<times> state" where
  "file_Write f b s =
     (case lookup (disk s) f of
        Some (File old) \<Rightarrow>
          (case store (disk s) f (old @ b) of
             Some d \<Rightarrow> (None, s\<lparr>disk := d\<rparr>)
           | None \<Rightarrow> (Some (Failure ''write: bad file''), s))
      | Some (Dir es) \<Rightarrow> (Some (Failure ''write: bad file''), s)
      | None \<Rightarrow> (Some (Failure ''write: bad file''), s))"

definition file_Close :: "os_File \<Rightarrow> state \<Rightarrow> error option" where
  "file_Close f s = closeErr s"

subsection \<open>The request\<close>

text \<open>
  A part of a multipart body: what \<open>FormName\<close> and \<open>FileName\<close> return, the bytes its
  reader delivers, and the error that ends the reading when it is not the end of the part.
  The reader of the body gives its parts one by one and then an error for ever: \<open>io.EOF\<close>
  (also wrapped) after the last part of a complete body, another error where the body is
  malformed or the connection fails. With an error, \<open>NextPart\<close> returns a nil part.
  Closing a part does not fail: \<open>Part.Close\<close> always returns nil.
\<close>

record part =
  FormName :: string
  FileName :: string
  Content :: string
  ReadErr :: "error option"

type_synonym reader = "part list \<times> error"

definition NextPart :: "reader \<Rightarrow> (part option \<times> error option) \<times> reader" where
  "NextPart rd =
     (case fst rd of
        [] \<Rightarrow> ((None, Some (snd rd)), rd)
      | p # ps \<Rightarrow> ((Some p, None), (ps, snd rd)))"

definition part_Close :: "part \<Rightarrow> error option" where
  "part_Close p = None"

text \<open>
  Of a request the handlers read the method, the path of the URL, its parsed query
  (\<open>r.URL.Query()\<close>) and the result of \<open>r.MultipartReader()\<close>, which is an error when the
  request is not a multipart one.
\<close>

record request =
  Method :: string
  URL_Path :: string
  URL_Query :: url_Values
  MultipartReader :: "error + reader"

subsection \<open>Package io\<close>

text \<open>
  \<open>io.Copy\<close> writes what it reads until the source ends or fails; the end of the source
  (\<open>io.EOF\<close> itself) is no error of the copy, and an empty source causes no write at all.
\<close>

definition copy_error :: "error option \<Rightarrow> error option" where
  "copy_error err = (if err = Some EOF then None else err)"

definition io_Copy_response :: "os_File \<Rightarrow> state \<Rightarrow> error option \<times> state" where
  "io_Copy_response src s =
     (case file_Read src s of
        (b, err) \<Rightarrow> (copy_error err, (if b = [] then s else s\<lparr>resp := Write b (resp s)\<rparr>)))"

definition io_Copy_file :: "os_File \<Rightarrow> part \<Rightarrow> state \<Rightarrow> error option \<times> state" where
  "io_Copy_file dst src s =
     (case (if Content src = [] then (None, s) else file_Write dst (Content src) s) of
        (Some werr, s1) \<Rightarrow> (Some werr, s1)
      | (None, s1) \<Rightarrow> (copy_error (ReadErr src), s1))"

definition io_Copy_Discard :: "part \<Rightarrow> error option" where
  "io_Copy_Discard src = copy_error (ReadErr src)"

subsection \<open>Package net/http: Redirect\<close>

definition dquote :: char where
  "dquote = CHR 0x22"

definition htmlEscape_byte :: "char \<Rightarrow> string" where
  "htmlEscape_byte c =
     (if c = CHR ''&'' then ''&amp;''
      else if c = CHR ''<'' then ''&lt;''
      else if c = CHR ''>'' then ''&gt;''
      else if c = dquote then ''&#34;''
      else if c = CHR 0x27 then ''&#39;''
      else [c])"

definition htmlEscape :: "string \<Rightarrow> string" where
  "htmlEscape s = concat (map htmlEscape_byte s)"

definition http_StatusText :: "nat \<Rightarrow> string" where
  "http_StatusText code =
     (if code = 301 then ''Moved Permanently''
      else if code = 302 then ''Found''
      else if code = 303 then ''See Other''
      else if code = 307 then ''Temporary Redirect''
      else if code = 308 then ''Permanent Redirect''
      else [])"

text \<open>
  \<open>http.Redirect\<close> to a rooted path without a query (the handler redirects to \<open>/\<close>): the
  Location is the cleaned path, with its trailing slash kept. A short HTML body is written
  only for a GET request that had no Content-Type set.
\<close>

definition http_Redirect :: "request \<Rightarrow> string \<Rightarrow> nat \<Rightarrow> response \<Rightarrow> response" where
  "http_Redirect r target code rw =
     (let trailing = (target \<noteq> [] \<and> last target = slash);
          cleaned = path_Clean target;
          location = (if trailing \<and> last cleaned \<noteq> slash then cleaned @ [slash] else cleaned);
          hadCT = (Header rw ''Content-Type'' \<noteq> []);
          rw1 = Header_Set ''Location'' location rw;
          rw2 = (if \<not> hadCT \<and> (Method r = ''GET'' \<or> Method r = ''HEAD'')
                 then Header_Set ''Content-Type'' ''text/html; charset=utf-8'' rw1 else rw1);
          rw3 = WriteHeader code rw2
      in if \<not> hadCT \<and> Method r = ''GET''
         then Write (''<a href='' @ [dquote] @ htmlEscape location @ [dquote] @ ''>''
                      @ http_StatusText code @ ''</a>.'' @ newline @ newline) rw3
         else rw3)"

subsection \<open>The package-level variables\<close>

text \<open>
  \<open>serveDir\<close> and \<open>outputDir\<close> are set from the flags before the server starts. The
  template \<open>tmplRoot\<close> is given as what its execution on the page data does: the bytes it
  writes to the response, and the error that stops it, if any. The page data is the map
  with the keys \<open>FullPath\<close> and \<open>Files\<close>.
\<close>

record fileEntry =
  URL :: string
  Name :: string
  Type :: string

record tmplData =
  FullPath :: string
  Files :: "fileEntry list"

record globals =
  tmplRoot :: "tmplData \<Rightarrow> string \<times> error option"
  outputDir :: string
  serveDir :: string

definition tmpl_Execute :: "(tmplData \<Rightarrow> string \<times> error option) \<Rightarrow> tmplData \<Rightarrow> response
    \<Rightarrow> error option \<times> response" where
  "tmpl_Execute tmpl page rw =
     (case tmpl page of (out, err) \<Rightarrow> (err, (if out = [] then rw else Write out rw)))"

subsection \<open>The handlers of the reference variant\<close>

definition getQueryValueOrDefault :: "url_Values \<Rightarrow> string \<Rightarrow> string \<Rightarrow> string" where
  "getQueryValueOrDefault query key fallback =
     (let values = Values_index query key
      in if length values = 0 then fallback
         else (let v = values ! 0
               in if v = [] then fallback else v))"

text \<open>The Go map of the query to add is a list of pairs with distinct keys.\<close>

definition addQueryToPath :: "string \<Rightarrow> (string \<times> string) list \<Rightarrow> error + string" where
  "addQueryToPath urlPath query =
     (case url_Parse urlPath of
        Inl err \<Rightarrow> Inl err
      | Inr parsed \<Rightarrow>
          (let q = foldl (\<lambda>q (k, v). Values_Set k v q) [] query
           in Inr (url_String (parsed\<lparr>RawQuery := Values_Encode q\<rparr>))))"

text \<open>The loop of \<open>handleRootGet\<close> over the entries of the directory.\<close>

fun appendEntries :: "string \<Rightarrow> DirEntry list \<Rightarrow> fileEntry list \<Rightarrow> error + fileEntry list" where
  "appendEntries servePathRoot [] fileEntries = Inr fileEntries"
| "appendEntries servePathRoot (entry # entries) fileEntries =
     (case (if entry_IsDir entry
            then (addQueryToPath ''/'' [(''p'', path_Join [servePathRoot, entry_Name entry])],
                  ''<DIR>'', entry_Name entry @ ''/'')
            else (addQueryToPath ''/download'' [(''p'', path_Join [servePathRoot, entry_Name entry])],
                  [], entry_Name entry)) of
        (Inl err, entryType, fileName) \<Rightarrow> Inl err
      | (Inr entryURL, entryType, fileName) \<Rightarrow>
          appendEntries servePathRoot entries
            (fileEntries @ [\<lparr>URL = entryURL, Name = fileName, Type = entryType\<rparr>]))"

text \<open>
  The handlers answer a failure with \<open>http.Error(w, "", code)\<close>: the empty message and
  a status.
\<close>

definition fail :: "nat \<Rightarrow> state \<Rightarrow> state" where
  "fail code s = s\<lparr>resp := http_Error [] code (resp s)\<rparr>"

definition handleRootGet :: "globals \<Rightarrow> request \<Rightarrow> state \<Rightarrow> panic + state" where
  "handleRootGet g r s =
     (if URL_Path r = ''/'' then
        (let query = URL_Query r;
             servePathRoot = getQueryValueOrDefault query ''p'' ''.''
         in case filepath_Abs (path_Join [serveDir g, servePathRoot]) s of
              Inl err \<Rightarrow> Inr (fail 500 s)
            | Inr fullPath \<Rightarrow>
                (case os_ReadDir fullPath s of
                   (Inl err, s1) \<Rightarrow> Inr (fail 500 s1)
                 | (Inr entries, s1) \<Rightarrow>
                     (case addQueryToPath ''/'' [(''p'', path_Join [servePathRoot, ''..''])] of
                        Inl err \<Rightarrow> Inr (fail 500 s1)
                      | Inr entryURL \<Rightarrow>
                          (case appendEntries servePathRoot entries
                                  [\<lparr>URL = entryURL, Name = ''../'', Type = ''<DIR>''\<rparr>] of
                             Inl err \<Rightarrow> Inr (fail 500 s1)
                           | Inr fileEntries \<Rightarrow>
                               (case tmpl_Execute (tmplRoot g)
                                       \<lparr>FullPath = fullPath, Files = fileEntries\<rparr> (resp s1) of
                                  (Some err, rw1) \<Rightarrow> Inr (fail 500 (s1\<lparr>resp := rw1\<rparr>))
                                | (None, rw1) \<Rightarrow> Inr (s1\<lparr>resp := rw1\<rparr>))))))
      else Inr (s\<lparr>resp := http_NotFound (resp s)\<rparr>))"

text \<open>
  The deferred closes log the error of a close, if there is one. \<open>closeFile\<close> is the
  deferred function of an open file: it closes the file as the handler returns.
\<close>

definition logClose :: "error option \<Rightarrow> state \<Rightarrow> state" where
  "logClose err s =
     (case err of
        None \<Rightarrow> s
      | Some e \<Rightarrow> log_Printf (''Unable to close file: '' @ error_text e) s)"

definition closeFile :: "os_File \<Rightarrow> state \<Rightarrow> state" where
  "closeFile f s = logClose (file_Close f s) s"

definition handleDownloadGet :: "globals \<Rightarrow> request \<Rightarrow> state \<Rightarrow> panic + state" where
  "handleDownloadGet g r s =
     (let inputPath = getQueryValueOrDefault (URL_Query r) ''p'' ''.'';
          fsPath = path_Join [serveDir g, inputPath]
      in case os_Open fsPath s of
           (Inl err, s1) \<Rightarrow> Inr (fail 500 s1)
         | (Inr f, s1) \<Rightarrow>
             (let s2 = s1\<lparr>resp :=
                         Header_Add ''content-disposition''
                           (''attachment; filename='' @ [dquote] @ path_Base fsPath @ [dquote])
                           (Header_Add ''content-type'' ''application/octet-stream'' (resp s1))\<rparr>
              in case io_Copy_response f s2 of
                   (Some err, s3) \<Rightarrow> Inr (closeFile f (fail 500 s3))
                 | (None, s3) \<Rightarrow>
                     Inr (closeFile f (s3\<lparr>resp := WriteHeader 204 (resp s3)\<rparr>))))"

text \<open>
  The closure \<open>readPart\<close> of \<open>handleUploadPost\<close>: its first statement defers the close of
  the part, its second calls a method of the part, which panics when the part is nil.
\<close>

definition readPart :: "globals \<Rightarrow> part option \<Rightarrow> state \<Rightarrow> panic + ((bool \<times> error option) \<times> state)" where
  "readPart g part s =
     (case part of
        None \<Rightarrow> Inl NilPointerDereference
      | Some p \<Rightarrow>
          (if FormName p \<noteq> ''file'' then Inr ((False, None), logClose (part_Close p) s)
           else
             (let fileName = path_Base (FileName p);
                  outputPath = path_Join [outputDir g, fileName];
                  s1 = log_Printf (''Receive upload of file name '' @ FileName p
                                     @ ''. Writing to '' @ outputPath @ ''.'') s
              in case os_Create outputPath s1 of
                   (Inl err, s2) \<Rightarrow> Inr ((False, Some err), logClose (part_Close p) s2)
                 | (Inr f, s2) \<Rightarrow>
                     (case io_Copy_file f p s2 of
                        (Some err, s3) \<Rightarrow>
                          Inr ((False, Some err), logClose (part_Close p) (closeFile f s3))
                      | (None, s3) \<Rightarrow>
                          Inr ((True, None), logClose (part_Close p) (closeFile f s3))))))"

text \<open>
  The loop of \<open>handleUploadPost\<close>: it returns from the handler after an error response, or
  breaks to the redirect that follows it.
\<close>

datatype exit = Return | Break

function uploadParts :: "globals \<Rightarrow> reader \<Rightarrow> state \<Rightarrow> panic + (exit \<times> state)" where
  "uploadParts g rd s =
     (case NextPart rd of
        ((part, err), rd1) \<Rightarrow>
          (if errors_Is_EOF err then Inr (Return, fail 400 s)
           else
             (case readPart g part s of
                Inl p \<Rightarrow> Inl p
              | Inr ((ok, err1), s1) \<Rightarrow>
                  (if err1 \<noteq> None then Inr (Return, fail 400 s1)
                   else if ok then Inr (Break, s1)
                   else uploadParts g rd1 s1))))"
  by pat_completeness auto
termination
proof (relation "measure (\<lambda>(g, rd, s). length (fst rd))")
  show "wf (measure (\<lambda>(g, rd, s). length (fst rd)))"
    by simp
next
  fix g :: globals and rd rd1 :: reader and s s1 :: state
  fix x1 x2 part err ok err1 y x1a
  assume "(x1, rd1) = NextPart rd" and "(part, err) = x1"
    and "readPart g part s = Inr y" and "(x1a, s1) = y"
  then show "((g, rd1, s1), (g, rd, s)) \<in> measure (\<lambda>(g, rd, s). length (fst rd))"
    by (cases "fst rd"; cases part) (auto simp: NextPart_def readPart_def)
qed

definition handleUploadPost :: "globals \<Rightarrow> request \<Rightarrow> state \<Rightarrow> panic + state" where
  "handleUploadPost g r s =
     (case MultipartReader r of
        Inl err \<Rightarrow>
          Inr (log_Printf (''Unable to read multipart form data: '' @ error_text err)
                 (s\<lparr>resp := http_Error ''Unable to read multipart form data'' 400 (resp s)\<rparr>))
      | Inr rd \<Rightarrow>
          (case uploadParts g rd s of
             Inl p \<Rightarrow> Inl p
           | Inr (Return, s1) \<Rightarrow> Inr s1
           | Inr (Break, s1) \<Rightarrow> Inr (s1\<lparr>resp := http_Redirect r ''/'' 302 (resp s1)\<rparr>)))"

subsection \<open>The method router\<close>

type_synonym handler = "request \<Rightarrow> state \<Rightarrow> panic + state"

record ByMethod =
  Get :: "handler option"
  Post :: "handler option"

definition routeByMethod :: "ByMethod \<Rightarrow> handler" where
  "routeByMethod byMethod r s =
     (case (if Method r = ''GET'' then Get byMethod
            else if Method r = ''POST'' then Post byMethod
            else None) of
        Some h \<Rightarrow> h r s
      | None \<Rightarrow> Inr (s\<lparr>resp := WriteHeader 405 (resp s)\<rparr>))"


definition uploadRoute :: "globals \<Rightarrow> handler" where
  "uploadRoute g = routeByMethod \<lparr>Get = None, Post = Some (handleUploadPost g)\<rparr>"

definition downloadRoute :: "globals \<Rightarrow> handler" where
  "downloadRoute g = routeByMethod \<lparr>Get = Some (handleDownloadGet g), Post = None\<rparr>"

subsection \<open>The upload handler of the minimal variant\<close>

text \<open>
  The minimal variant has the same router. Its upload handler copies the part named
  \<open>file\<close> to \<open>io.Discard\<close>; its loop is the loop of the reference variant.
\<close>

definition readPart_minimal :: "part option \<Rightarrow> state \<Rightarrow> panic + ((bool \<times> error option) \<times> state)" where
  "readPart_minimal part s =
     (case part of
        None \<Rightarrow> Inl NilPointerDereference
      | Some p \<Rightarrow>
          (if FormName p \<noteq> ''file'' then Inr ((False, None), logClose (part_Close p) s)
           else
             (case io_Copy_Discard p of
                Some err \<Rightarrow> Inr ((False, Some err), logClose (part_Close p) s)
              | None \<Rightarrow> Inr ((True, None), logClose (part_Close p) s))))"

function uploadParts_minimal :: "reader \<Rightarrow> state \<Rightarrow> panic + (exit \<times> state)" where
  "uploadParts_minimal rd s =
     (case NextPart rd of
        ((part, err), rd1) \<Rightarrow>
          (if errors_Is_EOF err then Inr (Return, fail 400 s)
           else
             (case readPart_minimal part s of
                Inl p \<Rightarrow> Inl p
              | Inr ((ok, err1), s1) \<Rightarrow>
                  (if err1 \<noteq> None then Inr (Return, fail 400 s1)
                   else if ok then Inr (Break, s1)
                   else uploadParts_minimal rd1 s1))))"
  by pat_completeness auto
termination
proof (relation "measure (\<lambda>(rd, s). length (fst rd))")
  show "wf (measure (\<lambda>(rd, s). length (fst rd)))"
    by simp
next
  fix rd rd1 :: reader and s s1 :: state
  fix x1 part err y x1a
  assume "(x1, rd1) = NextPart rd" and "(part, err) = x1"
    and "readPart_minimal part s = Inr y" and "(x1a, s1) = y"
  then show "((rd1, s1), (rd, s)) \<in> measure (\<lambda>(rd, s). length (fst rd))"
    by (cases "fst rd"; cases part) (auto simp: NextPart_def readPart_minimal_def)
qed

definition handleUploadPost_minimal :: "request \<Rightarrow> state \<Rightarrow> panic + state" where
  "handleUploadPost_minimal r s =
     (case MultipartReader r of
        Inl err \<Rightarrow>
          Inr (log_Printf (''Unable to read multipart form data: '' @ error_text err)
                 (s\<lparr>resp := http_Error ''Unable to read multipart form data'' 400 (resp s)\<rparr>))
      | Inr rd \<Rightarrow>
          (case uploadParts_minimal rd s of
             Inl p \<Rightarrow> Inl p
           | Inr (Return, s1) \<Rightarrow> Inr s1
           | Inr (Break, s1) \<Rightarrow> Inr (s1\<lparr>resp := http_Redirect r ''/'' 302 (resp s1)\<rparr>)))"

subsection \<open>A server to run the handlers on\<close>

text \<open>
  A small tree, \<open>/srv\<close> with a file and a directory in it, served and written to by the
  same server; a template that prints one line for each entry of the page; and the
  requests that the concrete theorems below send.
\<close>

definition example_disk :: node where
  "example_disk = Dir [(''srv'', Dir [(''b.txt'', File ''hello''), (''a'', Dir [])])]"

definition example_state :: state where
  "example_state =
     \<lparr>disk = example_disk, workdir = Some ''/'', closeErr = None, logged = [], syscalls = [],
      resp = new_response\<rparr>"

definition entry_line :: "fileEntry \<Rightarrow> string" where
  "entry_line e = URL e @ '' '' @ Name e @ '' '' @ Type e @ newline"

definition example_globals :: globals where
  "example_globals =
     \<lparr>tmplRoot = (\<lambda>page. (concat (map entry_line (Files page)), None)),
      outputDir = ''/srv'', serveDir = ''/srv''\<rparr>"

definition get_request :: "string \<Rightarrow> url_Values \<Rightarrow> request" where
  "get_request path query =
     \<lparr>Method = ''GET'', URL_Path = path, URL_Query = query,
      MultipartReader = Inl (Failure ''request Content-Type is not multipart/form-data'')\<rparr>"

definition post_request :: "string \<Rightarrow> part list \<Rightarrow> error \<Rightarrow> request" where
  "post_request path parts err =
     \<lparr>Method = ''POST'', URL_Path = path, URL_Query = [], MultipartReader = Inr (parts, err)\<rparr>"

definition form_field :: "string \<Rightarrow> string \<Rightarrow> part" where
  "form_field name v = \<lparr>FormName = name, FileName = [], Content = v, ReadErr = None\<rparr>"

definition form_file :: "string \<Rightarrow> string \<Rightarrow> string \<Rightarrow> part" where
  "form_file name filename b = \<lparr>FormName = name, FileName = filename, Content = b, ReadErr = None\<rparr>"

subsection \<open>Names and places\<close>

text \<open>
  A plain name is an element of a path that names a child: not empty, not \<open>.\<close>, not
  \<open>..\<close>, without a slash. A proper element is one that \<open>path.Clean\<close> keeps: a plain
  name or \<open>..\<close>. \<open>node_at s name\<close> is what the path \<open>name\<close> leads to in the state \<open>s\<close>.
\<close>

definition plain :: "string \<Rightarrow> bool" where
  "plain c = (c \<noteq> [] \<and> c \<noteq> ''.'' \<and> c \<noteq> ''..'' \<and> slash \<notin> set c)"

definition proper :: "string \<Rightarrow> bool" where
  "proper c = (c \<noteq> [] \<and> c \<noteq> ''.'' \<and> slash \<notin> set c)"

definition node_at :: "state \<Rightarrow> string \<Rightarrow> node option" where
  "node_at s name =
     (case resolve (workdir s) name of None \<Rightarrow> None | Some cs \<Rightarrow> lookup (disk s) cs)"

section \<open>Properties\<close>

subsection \<open>Evaluation\<close>

declare uploadParts.simps [simp del]

declare uploadParts_minimal.simps [simp del]

lemmas response_defs =
  new_response_def StatusCode_def Header_Add_def Header_Set_def WriteHeader_def Write_def
  http_Error_def http_NotFound_def fail_def

lemmas example_defs =
  example_disk_def example_state_def example_globals_def get_request_def post_request_def
  form_field_def form_file_def entry_line_def

lemmas path_defs = path_Join_def path_Clean_def clean_step_def IsAbs_def slash_def path_Base_def

lemmas os_defs = filepath_Abs_def os_Getwd_def os_ReadDir_def os_Open_def os_Create_def
  file_Read_def file_Write_def file_Close_def closeFile_def resolve_def walk_def log_Printf_def
  logClose_def node_at_def

lemmas url_defs = url_QueryEscape_def escape_byte_def shouldEscape_def is_lower_def is_upper_def
  is_digit_def upperhex_def

subsection \<open>Closing a file\<close>

text \<open>A close changes nothing but the log, where its error goes when it fails.\<close>

lemma closeFile_simps:
  "disk (closeFile f s) = disk s"
  "workdir (closeFile f s) = workdir s"
  "closeErr (closeFile f s) = closeErr s"
  "syscalls (closeFile f s) = syscalls s"
  "resp (closeFile f s) = resp s"
  by (simp_all add: closeFile_def logClose_def log_Printf_def file_Close_def split: option.splits)

lemma node_at_closeFile: "node_at (closeFile f s) name = node_at s name"
  by (simp add: node_at_def closeFile_simps split: option.splits)

lemma closeFile_logged:
  "logged (closeFile f s) =
     logged s @ (case closeErr s of
                   None \<Rightarrow> []
                 | Some e \<Rightarrow> [''Unable to close file: '' @ error_text e])"
  by (simp add: closeFile_def logClose_def log_Printf_def file_Close_def split: option.splits)

text \<open>
  A failed close is logged on every path that has opened a file: the download handler logs
  it after a copy and after a failed copy, \<open>readPart\<close> after the file was created.
\<close>

lemma handleDownloadGet_logged:
  assumes "handleDownloadGet g r s = Inr s'"
    and "path_Join [serveDir g, getQueryValueOrDefault (URL_Query r) ''p'' ''.''] = fsPath"
  shows "logged s' = logged s @
     (case node_at s fsPath of
        None \<Rightarrow> []
      | Some n \<Rightarrow>
          (case closeErr s of
             None \<Rightarrow> []
           | Some e \<Rightarrow> [''Unable to close file: '' @ error_text e]))"
  using assms
  by (auto simp: handleDownloadGet_def Let_def os_Open_def node_at_def fail_def
      io_Copy_response_def closeFile_logged
      split: option.splits prod.splits if_splits)

lemma readPart_logged:
  assumes "readPart g (Some p) s = Inr (res, s1)" and "FormName p = ''file''"
    and "path_Join [outputDir g, path_Base (FileName p)] = outputPath"
  shows "logged s1 = logged s
     @ [''Receive upload of file name '' @ FileName p @ ''. Writing to '' @ outputPath @ ''.'']
     @ (case fst (os_Create outputPath s) of
          Inl err \<Rightarrow> []
        | Inr f \<Rightarrow>
            (case closeErr s of
               None \<Rightarrow> []
             | Some e \<Rightarrow> [''Unable to close file: '' @ error_text e]))"
  using assms
  by (auto simp: readPart_def Let_def logClose_def part_Close_def log_Printf_def
      os_Create_def io_Copy_file_def file_Write_def closeFile_logged
      split: option.splits if_splits sum.splits prod.splits node.splits)

subsection \<open>The method router\<close>

text \<open>
  C7. A GET request goes to the GET handler when there is one, a POST request to the POST
  handler when there is one. In every other case the router calls no handler: it writes
  the status 405 and nothing into the body, whatever the handlers are.
\<close>

theorem routeByMethod_dispatch:
  "(Method r = ''GET'' \<and> Get byMethod = Some h \<longrightarrow> routeByMethod byMethod r s = h r s) \<and>
   (Method r = ''POST'' \<and> Post byMethod = Some h \<longrightarrow> routeByMethod byMethod r s = h r s) \<and>
   (\<not> (Method r = ''GET'' \<and> Get byMethod \<noteq> None) \<and>
    \<not> (Method r = ''POST'' \<and> Post byMethod \<noteq> None) \<longrightarrow>
      routeByMethod byMethod r s = Inr (s\<lparr>resp := WriteHeader 405 (resp s)\<rparr>) \<and>
      Body (WriteHeader 405 (resp s)) = Body (resp s) \<and>
      (Code (resp s) = None \<longrightarrow> Code (WriteHeader 405 (resp s)) = Some 405))"
  by (auto simp: routeByMethod_def WriteHeader_def split: option.splits)

theorem routeByMethod_dispatch_witness:
  "routeByMethod \<lparr>Get = Some (\<lambda>r s. Inr (s\<lparr>resp := Write ''got'' (resp s)\<rparr>)), Post = None\<rparr>
      (get_request ''/'' []) example_state
     = Inr (example_state\<lparr>resp := Write ''got'' new_response\<rparr>) \<and>
   routeByMethod \<lparr>Get = None, Post = Some (\<lambda>r s. Inr (s\<lparr>resp := Write ''posted'' (resp s)\<rparr>))\<rparr>
      (post_request ''/upload'' [] EOF) example_state
     = Inr (example_state\<lparr>resp := Write ''posted'' new_response\<rparr>) \<and>
   routeByMethod \<lparr>Get = Some (\<lambda>r s. Inr (s\<lparr>resp := Write ''got'' (resp s)\<rparr>)), Post = None\<rparr>
      (post_request ''/'' [] EOF) example_state
     = Inr (example_state\<lparr>resp := WriteHeader 405 new_response\<rparr>) \<and>
   Body (WriteHeader 405 new_response) = [] \<and>
   Code (WriteHeader 405 new_response) = Some 405"
  using
    routeByMethod_dispatch [of "get_request ''/'' []"
      "\<lparr>Get = Some (\<lambda>r s. Inr (s\<lparr>resp := Write ''got'' (resp s)\<rparr>)), Post = None\<rparr>"
      "\<lambda>r s. Inr (s\<lparr>resp := Write ''got'' (resp s)\<rparr>)" example_state]
    routeByMethod_dispatch [of "post_request ''/upload'' [] EOF"
      "\<lparr>Get = None, Post = Some (\<lambda>r s. Inr (s\<lparr>resp := Write ''posted'' (resp s)\<rparr>))\<rparr>"
      "\<lambda>r s. Inr (s\<lparr>resp := Write ''posted'' (resp s)\<rparr>)" example_state]
    routeByMethod_dispatch [of "post_request ''/'' [] EOF"
      "\<lparr>Get = Some (\<lambda>r s. Inr (s\<lparr>resp := Write ''got'' (resp s)\<rparr>)), Post = None\<rparr>"
      "\<lambda>r s. Inr s" example_state]
  by (simp add: get_request_def post_request_def example_state_def new_response_def)

subsection \<open>The upload loop\<close>

lemma uploadParts_Nil:
  "uploadParts g ([], e) s =
     (if unwraps_to_EOF e then Inr (Return, fail 400 s) else Inl NilPointerDereference)"
  by (subst uploadParts.simps) (simp add: NextPart_def errors_Is_EOF_def readPart_def)

lemma uploadParts_Cons:
  "uploadParts g (p # ps, e) s =
     (case readPart g (Some p) s of
        Inl x \<Rightarrow> Inl x
      | Inr ((ok, err1), s1) \<Rightarrow>
          (if err1 \<noteq> None then Inr (Return, fail 400 s1)
           else if ok then Inr (Break, s1)
           else uploadParts g (ps, e) s1))"
  by (subst uploadParts.simps) (simp add: NextPart_def errors_Is_EOF_def)

lemma readPart_other:
  "FormName p \<noteq> ''file'' \<Longrightarrow> readPart g (Some p) s = Inr ((False, None), s)"
  by (simp add: readPart_def logClose_def part_Close_def)

lemma uploadParts_skip:
  "list_all (\<lambda>p. FormName p \<noteq> ''file'') pre \<Longrightarrow>
   uploadParts g (pre @ ps, e) s = uploadParts g (ps, e) s"
  by (induction pre) (simp_all add: uploadParts_Cons readPart_other)

lemma uploadParts_no_file:
  "list_all (\<lambda>p. FormName p \<noteq> ''file'') ps \<Longrightarrow>
   uploadParts g (ps, e) s =
     (if unwraps_to_EOF e then Inr (Return, fail 400 s) else Inl NilPointerDereference)"
  using uploadParts_skip [of ps g "[]" e s] by (simp add: uploadParts_Nil)

lemma uploadParts_minimal_Nil:
  "uploadParts_minimal ([], e) s =
     (if unwraps_to_EOF e then Inr (Return, fail 400 s) else Inl NilPointerDereference)"
  by (subst uploadParts_minimal.simps)
     (simp add: NextPart_def errors_Is_EOF_def readPart_minimal_def)

lemma uploadParts_minimal_Cons:
  "uploadParts_minimal (p # ps, e) s =
     (case readPart_minimal (Some p) s of
        Inl x \<Rightarrow> Inl x
      | Inr ((ok, err1), s1) \<Rightarrow>
          (if err1 \<noteq> None then Inr (Return, fail 400 s1)
           else if ok then Inr (Break, s1)
           else uploadParts_minimal (ps, e) s1))"
  by (subst uploadParts_minimal.simps) (simp add: NextPart_def errors_Is_EOF_def)

lemma fail_fresh:
  "resp s = new_response \<Longrightarrow>
   StatusCode (resp (fail c s)) = c \<and> Body (resp (fail c s)) = newline \<and>
   disk (fail c s) = disk s \<and> syscalls (fail c s) = syscalls s \<and> logged (fail c s) = logged s"
  by (simp add: response_defs)

subsection \<open>The navigation path\<close>

lemma getQueryValueOrDefault_single:
  "v \<noteq> [] \<Longrightarrow> getQueryValueOrDefault [(k, [v])] k fallback = v"
  by (simp add: getQueryValueOrDefault_def Values_index_def)

lemma getQueryValueOrDefault_nonempty:
  "fallback \<noteq> [] \<Longrightarrow> getQueryValueOrDefault query k fallback \<noteq> []"
  by (simp add: getQueryValueOrDefault_def Let_def)

text \<open>
  C8. The navigation path of a request to the listing or to the download handler is the
  first value of \<open>p\<close> in the query, and \<open>.\<close> when the query has no \<open>p\<close> or when that
  value is empty; the handlers read nothing else of the query.
\<close>

theorem navigation_path_default:
  "(map_of (URL_Query r) ''p'' = None \<longrightarrow> getQueryValueOrDefault (URL_Query r) ''p'' ''.'' = ''.'') \<and>
   (\<forall>v vs. map_of (URL_Query r) ''p'' = Some (v # vs) \<longrightarrow>
      getQueryValueOrDefault (URL_Query r) ''p'' ''.'' = (if v = [] then ''.'' else v)) \<and>
   handleRootGet g r s =
     handleRootGet g (r\<lparr>URL_Query := [(''p'', [getQueryValueOrDefault (URL_Query r) ''p'' ''.''])]\<rparr>) s \<and>
   handleDownloadGet g r s =
     handleDownloadGet g (r\<lparr>URL_Query := [(''p'', [getQueryValueOrDefault (URL_Query r) ''p'' ''.''])]\<rparr>) s"
proof -
  have ne: "getQueryValueOrDefault (URL_Query r) ''p'' ''.'' \<noteq> []"
    by (rule getQueryValueOrDefault_nonempty) simp
  have absent: "map_of (URL_Query r) ''p'' = None \<longrightarrow>
      getQueryValueOrDefault (URL_Query r) ''p'' ''.'' = ''.''"
    by (simp add: getQueryValueOrDefault_def Values_index_def)
  have first: "\<forall>v vs. map_of (URL_Query r) ''p'' = Some (v # vs) \<longrightarrow>
      getQueryValueOrDefault (URL_Query r) ''p'' ''.'' = (if v = [] then ''.'' else v)"
    by (simp add: getQueryValueOrDefault_def Values_index_def)
  have root: "handleRootGet g r s =
     handleRootGet g (r\<lparr>URL_Query := [(''p'', [getQueryValueOrDefault (URL_Query r) ''p'' ''.''])]\<rparr>) s"
    by (simp add: handleRootGet_def getQueryValueOrDefault_single [OF ne])
  have download: "handleDownloadGet g r s =
     handleDownloadGet g (r\<lparr>URL_Query := [(''p'', [getQueryValueOrDefault (URL_Query r) ''p'' ''.''])]\<rparr>) s"
    by (simp add: handleDownloadGet_def getQueryValueOrDefault_single [OF ne])
  from absent first root download show ?thesis by blast
qed

theorem navigation_path_default_witness:
  "getQueryValueOrDefault [] ''p'' ''.'' = ''.'' \<and>
   getQueryValueOrDefault [(''p'', [[]])] ''p'' ''.'' = ''.'' \<and>
   getQueryValueOrDefault [(''q'', [''x'']), (''p'', [''a/b'', ''c''])] ''p'' ''.'' = ''a/b''"
  using
    navigation_path_default [of "get_request ''/'' []"]
    navigation_path_default [of "get_request ''/'' [(''p'', [[]])]"]
    navigation_path_default [of "get_request ''/download'' [(''q'', [''x'']), (''p'', [''a/b'', ''c''])]"]
  by (simp add: get_request_def)

subsection \<open>An upload without a part named file\<close>

lemma handleUploadPost_no_file:
  assumes "MultipartReader r = Inr (ps, e)"
    and "list_all (\<lambda>p. FormName p \<noteq> ''file'') ps"
  shows "handleUploadPost g r s =
     (if unwraps_to_EOF e then Inr (fail 400 s) else Inl NilPointerDereference)"
  using assms by (simp add: handleUploadPost_def uploadParts_no_file)

lemma handleUploadPost_minimal_no_parts:
  assumes "MultipartReader r = Inr ([], e)"
  shows "handleUploadPost_minimal r s =
     (if unwraps_to_EOF e then Inr (fail 400 s) else Inl NilPointerDereference)"
  using assms by (simp add: handleUploadPost_minimal_def uploadParts_minimal_Nil)

lemma uploadRoute_POST: "Method r = ''POST'' \<Longrightarrow> uploadRoute g r s = handleUploadPost g r s"
  by (simp add: uploadRoute_def routeByMethod_def)

text \<open>
  C10 (the code does not do what the claim says). When \<open>NextPart\<close> fails with an error
  that is not the end of the stream, the part is nil and the loop gives it to \<open>readPart\<close>,
  which calls a method of it: the handler panics, in both variants, and no response is
  written. Here the body has no part and a malformed header line.
\<close>

theorem upload_nil_part_panics:
  "uploadRoute example_globals
      (post_request ''/upload'' [] (Failure ''malformed MIME header line'')) example_state
     = Inl NilPointerDereference \<and>
   handleUploadPost_minimal
      (post_request ''/upload'' [] (Failure ''malformed MIME header line'')) example_state
     = Inl NilPointerDereference"
  by (simp add: uploadRoute_POST handleUploadPost_no_file handleUploadPost_minimal_no_parts
      post_request_def)

text \<open>
  C5, as the claim states it, fails: the response to an upload without a part named
  \<open>file\<close> has the status 400, but its body is not empty. \<open>http.Error\<close> prints the empty
  message with a newline.
\<close>

theorem upload_without_file_body_counterexample:
  "uploadRoute example_globals (post_request ''/upload'' [form_field ''note'' ''x''] EOF) example_state
     = Inr (fail 400 example_state) \<and>
   StatusCode (resp (fail 400 example_state)) = 400 \<and>
   Body (resp (fail 400 example_state)) = [CHR 0x0A] \<and>
   Body (resp (fail 400 example_state)) \<noteq> []"
  by (simp add: uploadRoute_POST handleUploadPost_no_file post_request_def form_field_def
      fail_fresh example_state_def newline_def)

text \<open>
  C5, amended. A POST to \<open>/upload\<close> whose body ends (with \<open>io.EOF\<close>) and has no part
  named \<open>file\<close> gets the status 400 and a body of one newline; the filesystem is as it
  was and package os was not called.
\<close>

theorem upload_without_file_part:
  assumes "Method r = ''POST''"
    and "MultipartReader r = Inr (ps, e)"
    and "unwraps_to_EOF e"
    and "\<forall>p \<in> set ps. FormName p \<noteq> ''file''"
    and "resp s = new_response"
  shows "uploadRoute g r s = Inr (fail 400 s) \<and>
    StatusCode (resp (fail 400 s)) = 400 \<and>
    Body (resp (fail 400 s)) = newline \<and>
    disk (fail 400 s) = disk s \<and>
    syscalls (fail 400 s) = syscalls s"
proof -
  from assms(4) have "list_all (\<lambda>p. FormName p \<noteq> ''file'') ps"
    by (simp add: list_all_iff)
  with assms(1-3) have "uploadRoute g r s = Inr (fail 400 s)"
    by (simp add: uploadRoute_POST handleUploadPost_no_file)
  with fail_fresh [OF assms(5), of 400] show ?thesis by simp
qed

theorem upload_without_file_part_witness:
  "uploadRoute example_globals
      (post_request ''/upload'' [form_field ''note'' ''x'', form_field ''other'' ''y''] (Wrapped ''multipart: NextPart: '' EOF))
      example_state = Inr (fail 400 example_state) \<and>
   StatusCode (resp (fail 400 example_state)) = 400 \<and>
   Body (resp (fail 400 example_state)) = newline \<and>
   disk (fail 400 example_state) = example_disk \<and>
   syscalls (fail 400 example_state) = []"
  using upload_without_file_part [of
      "post_request ''/upload'' [form_field ''note'' ''x'', form_field ''other'' ''y''] (Wrapped ''multipart: NextPart: '' EOF)"
      "[form_field ''note'' ''x'', form_field ''other'' ''y'']" "Wrapped ''multipart: NextPart: '' EOF"
      example_state example_globals]
  by (simp add: post_request_def form_field_def example_state_def)

subsection \<open>The listing\<close>


lemma url_Parse_root: "url_Parse ''/'' = Inr \<lparr>Path = ''/'', RawQuery = []\<rparr>"
  by (simp add: url_Parse_def plain_path_def IsAbs_def slash_def)

lemma url_Parse_download: "url_Parse ''/download'' = Inr \<lparr>Path = ''/download'', RawQuery = []\<rparr>"
  by (simp add: url_Parse_def plain_path_def IsAbs_def slash_def shouldEscape_def is_lower_def)

lemma escape_p: "url_QueryEscape ''p'' = ''p''"
  by (simp add: url_QueryEscape_def escape_byte_def shouldEscape_def is_lower_def)

lemma Values_Encode_single: "Values_Encode (Values_Set ''p'' v []) = ''p='' @ url_QueryEscape v"
  by (simp add: Values_Encode_def Values_Set_def escape_p)

lemma addQueryToPath_root:
  "addQueryToPath ''/'' [(''p'', v)] = Inr (''/?p='' @ url_QueryEscape v)"
  by (simp add: addQueryToPath_def url_Parse_root Values_Encode_single url_String_def)

lemma addQueryToPath_download:
  "addQueryToPath ''/download'' [(''p'', v)] = Inr (''/download?p='' @ url_QueryEscape v)"
  by (simp add: addQueryToPath_def url_Parse_download Values_Encode_single url_String_def)

lemma appendEntries_map:
  "appendEntries p entries acc =
     Inr (acc @ map (\<lambda>e. if entry_IsDir e
                  then \<lparr>URL = ''/?p='' @ url_QueryEscape (path_Join [p, entry_Name e]),
                        Name = entry_Name e @ ''/'', Type = ''<DIR>''\<rparr>
                  else \<lparr>URL = ''/download?p='' @ url_QueryEscape (path_Join [p, entry_Name e]),
                        Name = entry_Name e, Type = []\<rparr>) entries)"
  by (induction entries arbitrary: acc)
     (simp_all add: addQueryToPath_root addQueryToPath_download)

lemma handleRootGet_listing:
  assumes "URL_Path r = ''/''"
    and "getQueryValueOrDefault (URL_Query r) ''p'' ''.'' = p"
    and "filepath_Abs (path_Join [serveDir g, p]) s = Inr fullPath"
    and "os_ReadDir fullPath s = (Inr entries, s1)"
  shows "handleRootGet g r s =
     (case tmpl_Execute (tmplRoot g)
             \<lparr>FullPath = fullPath,
              Files = \<lparr>URL = ''/?p='' @ url_QueryEscape (path_Join [p, ''..'']),
                       Name = ''../'', Type = ''<DIR>''\<rparr>
                      # map (\<lambda>e. if entry_IsDir e
                                 then \<lparr>URL = ''/?p='' @ url_QueryEscape (path_Join [p, entry_Name e]),
                                       Name = entry_Name e @ ''/'', Type = ''<DIR>''\<rparr>
                                 else \<lparr>URL = ''/download?p='' @ url_QueryEscape (path_Join [p, entry_Name e]),
                                       Name = entry_Name e, Type = []\<rparr>) entries\<rparr>
             (resp s1) of
        (Some err, rw1) \<Rightarrow> Inr (fail 500 (s1\<lparr>resp := rw1\<rparr>))
      | (None, rw1) \<Rightarrow> Inr (s1\<lparr>resp := rw1\<rparr>))"
  using assms
  by (simp add: handleRootGet_def Let_def addQueryToPath_root appendEntries_map)

text \<open>
  C2. For a request to \<open>/\<close> whose navigation path \<open>p\<close> names a directory that can be
  read, the template is executed on the absolute path and on this list of entries: first
  \<open>../\<close>, a directory, with the URL \<open>/?p=\<close> and the escaped \<open>join(p, "..")\<close>; then, for
  each child in the order \<open>os.ReadDir\<close> returned them, a directory as \<open>name/\<close> with the
  URL \<open>/?p=\<close> and the escaped \<open>join(p, name)\<close>, any other child as \<open>name\<close> with the
  empty type and the URL \<open>/download?p=\<close> and the escaped \<open>join(p, name)\<close>.
\<close>

theorem listing_entries:
  assumes "URL_Path r = ''/''"
    and "getQueryValueOrDefault (URL_Query r) ''p'' ''.'' = p"
    and "filepath_Abs (path_Join [serveDir g, p]) s = Inr fullPath"
    and "os_ReadDir fullPath s = (Inr entries, s1)"
  shows "handleRootGet g r s =
     (case tmpl_Execute (tmplRoot g)
             \<lparr>FullPath = fullPath,
              Files = \<lparr>URL = ''/?p='' @ url_QueryEscape (path_Join [p, ''..'']),
                       Name = ''../'', Type = ''<DIR>''\<rparr>
                      # map (\<lambda>e. if entry_IsDir e
                                 then \<lparr>URL = ''/?p='' @ url_QueryEscape (path_Join [p, entry_Name e]),
                                       Name = entry_Name e @ ''/'', Type = ''<DIR>''\<rparr>
                                 else \<lparr>URL = ''/download?p='' @ url_QueryEscape (path_Join [p, entry_Name e]),
                                       Name = entry_Name e, Type = []\<rparr>) entries\<rparr>
             (resp s1) of
        (Some err, rw1) \<Rightarrow> Inr (fail 500 (s1\<lparr>resp := rw1\<rparr>))
      | (None, rw1) \<Rightarrow> Inr (s1\<lparr>resp := rw1\<rparr>))"
  using assms by (rule handleRootGet_listing)

theorem listing_entries_witness:
  "URL_Path (get_request ''/'' []) = ''/'' \<and>
   filepath_Abs (path_Join [serveDir example_globals, ''.'']) example_state = Inr ''/srv'' \<and>
   os_ReadDir ''/srv'' example_state =
     (Inr [\<lparr>entry_Name = ''a'', entry_IsDir = True\<rparr>, \<lparr>entry_Name = ''b.txt'', entry_IsDir = False\<rparr>],
      example_state\<lparr>syscalls := [ReadDir ''/srv'']\<rparr>) \<and>
   handleRootGet example_globals (get_request ''/'' []) example_state =
     Inr (example_state\<lparr>syscalls := [ReadDir ''/srv''],
            resp := Write (''/?p=.. ../ <DIR>'' @ newline @ ''/?p=a a/ <DIR>'' @ newline
                            @ ''/download?p=b.txt b.txt '' @ newline) new_response\<rparr>)"
proof -
  have h1: "URL_Path (get_request ''/'' []) = ''/''"
    by (simp add: get_request_def)
  have h2: "getQueryValueOrDefault (URL_Query (get_request ''/'' [])) ''p'' ''.'' = ''.''"
    by (simp add: get_request_def getQueryValueOrDefault_def Values_index_def)
  have h3: "filepath_Abs (path_Join [serveDir example_globals, ''.'']) example_state = Inr ''/srv''"
    by (simp add: example_defs os_defs path_defs)
  have h4: "os_ReadDir ''/srv'' example_state =
     (Inr [\<lparr>entry_Name = ''a'', entry_IsDir = True\<rparr>, \<lparr>entry_Name = ''b.txt'', entry_IsDir = False\<rparr>],
      example_state\<lparr>syscalls := [ReadDir ''/srv'']\<rparr>)"
    by (simp add: example_defs os_defs path_defs)
  show ?thesis
    using listing_entries [OF h1 h2 h3 h4] h1 h3 h4
    by (simp add: example_defs tmpl_Execute_def path_defs url_defs Write_def new_response_def)
qed


subsection \<open>Splitting and joining at slashes\<close>

lemma split_slash_not_Nil: "split_slash s \<noteq> []"
  by (induction s) (auto split: list.splits)

lemma split_slash_append:
  "split_slash (xs @ slash # ys) = split_slash xs @ split_slash ys"
proof (induction xs)
  case Nil
  show ?case by simp
next
  case (Cons c xs)
  obtain x rest where sp: "split_slash xs = x # rest"
    using split_slash_not_Nil [of xs] by (cases "split_slash xs") auto
  with Cons show ?case by simp
qed

lemma split_slash_plain: "slash \<notin> set b \<Longrightarrow> split_slash b = [b]"
  by (induction b) auto

lemma split_slash_elements: "x \<in> set (split_slash s) \<Longrightarrow> slash \<notin> set x"
proof (induction s arbitrary: x)
  case Nil
  then show ?case by simp
next
  case (Cons c s)
  obtain y rest where sp: "split_slash s = y # rest"
    using split_slash_not_Nil [of s] by (cases "split_slash s") auto
  show ?case
  proof (cases "c = slash")
    case True
    with Cons show ?thesis by auto
  next
    case False
    with Cons.prems sp have "x = c # y \<or> x \<in> set rest" by simp
    with Cons.IH sp False show ?thesis by auto
  qed
qed

lemma split_join_slash:
  "xs \<noteq> [] \<Longrightarrow> \<forall>x \<in> set xs. slash \<notin> set x \<Longrightarrow> split_slash (join_slash xs) = xs"
proof (induction xs rule: join_slash.induct)
  case 1
  then show ?case by simp
next
  case (2 x)
  then show ?case by (simp add: split_slash_plain)
next
  case (3 x y ys)
  then show ?case by (simp add: split_slash_append split_slash_plain)
qed

subsection \<open>Cleaning a path does not change where it leads\<close>

lemma walk_plain: "plain c \<Longrightarrow> walk at c = at @ [c]"
  by (simp add: walk_def plain_def)

lemma foldl_walk_plain: "list_all plain out \<Longrightarrow> foldl walk at out = at @ out"
  by (induction out arbitrary: at) (simp_all add: walk_plain)

text \<open>Rooted paths: the cleaned elements are the steps of the walk.\<close>

lemma clean_step_rooted:
  assumes "list_all plain out" and "slash \<notin> set c"
  shows "clean_step True out c = walk out c \<and> list_all plain (walk out c)"
proof (cases "c = [] \<or> c = ''.''")
  case True
  with assms show ?thesis by (auto simp: clean_step_def walk_def)
next
  case False
  note F = this
  show ?thesis
  proof (cases "c = ''..''")
    case True
    show ?thesis
    proof (cases "out = []")
      case True
      with \<open>c = ''..''\<close> show ?thesis by (simp add: clean_step_def walk_def)
    next
      case False
      with assms(1) have "list_all plain (butlast out @ [last out])" by simp
      then have "list_all plain (butlast out) \<and> plain (last out)"
        by (simp del: append_butlast_last_id)
      with False \<open>c = ''..''\<close> show ?thesis
        by (simp add: clean_step_def walk_def plain_def)
    qed
  next
    case False
    with F assms show ?thesis by (simp add: clean_step_def walk_def plain_def)
  qed
qed

lemma clean_rooted_walk:
  "list_all plain out \<Longrightarrow> \<forall>c \<in> set cs. slash \<notin> set c \<Longrightarrow>
   foldl (clean_step True) out cs = foldl walk out cs \<and> list_all plain (foldl walk out cs)"
proof (induction cs arbitrary: out)
  case Nil
  then show ?case by simp
next
  case (Cons c cs)
  from Cons.prems have "clean_step True out c = walk out c \<and> list_all plain (walk out c)"
    by (intro clean_step_rooted) simp_all
  with Cons show ?case by simp
qed

text \<open>
  Relative paths: the cleaned elements may start with \<open>..\<close> elements, and walking them
  from any place is walking the elements of the path from there.
\<close>

lemma clean_step_relative:
  assumes "list_all proper out" and "slash \<notin> set c"
  shows "foldl walk at (clean_step False out c) = walk (foldl walk at out) c \<and>
    list_all proper (clean_step False out c)"
proof (cases "c = ''..'' \<and> out \<noteq> [] \<and> last out \<noteq> ''..''")
  case True
  then have split: "out = butlast out @ [last out]" by simp
  from True assms(1) have "list_all proper (butlast out @ [last out])" by simp
  then have bl: "list_all proper (butlast out) \<and> proper (last out)"
    by (simp del: append_butlast_last_id)
  with True have pl: "plain (last out)" by (simp add: plain_def proper_def)
  have "foldl walk at out = foldl walk at (butlast out) @ [last out]"
    by (subst split) (simp add: walk_plain [OF pl])
  with True bl show ?thesis by (simp add: clean_step_def walk_def)
next
  case False
  with assms show ?thesis by (auto simp: clean_step_def walk_def proper_def)
qed

lemma clean_relative_walk:
  "list_all proper out \<Longrightarrow> \<forall>c \<in> set cs. slash \<notin> set c \<Longrightarrow>
   foldl walk at (foldl (clean_step False) out cs) = foldl walk (foldl walk at out) cs \<and>
   list_all proper (foldl (clean_step False) out cs)"
proof (induction cs arbitrary: out)
  case Nil
  then show ?case by simp
next
  case (Cons c cs)
  from Cons.prems have step: "foldl walk at (clean_step False out c) = walk (foldl walk at out) c \<and>
      list_all proper (clean_step False out c)"
    using clean_step_relative [of out c at] by simp
  with Cons.prems have "foldl walk at (foldl (clean_step False) (clean_step False out c) cs)
      = foldl walk (foldl walk at (clean_step False out c)) cs \<and>
      list_all proper (foldl (clean_step False) (clean_step False out c) cs)"
    using Cons.IH [of "clean_step False out c"] by simp
  with step show ?case by simp
qed


lemma split_slash_rooted: "split_slash (slash # s) = [] # split_slash s"
  by simp

lemma join_slash_relative:
  "out \<noteq> [] \<Longrightarrow> list_all proper out \<Longrightarrow> join_slash out \<noteq> [] \<and> \<not> IsAbs (join_slash out)"
proof (induction out rule: join_slash.induct)
  case 1
  then show ?case by simp
next
  case (2 x)
  then show ?case by (cases x) (auto simp: proper_def IsAbs_def)
next
  case (3 x y ys)
  then show ?case by (cases x) (auto simp: proper_def IsAbs_def)
qed

lemma plain_proper: "list_all plain out \<Longrightarrow> list_all proper out"
  by (induction out) (simp_all add: plain_def proper_def)

lemma proper_no_slash: "list_all proper out \<Longrightarrow> \<forall>x \<in> set out. slash \<notin> set x"
  by (induction out) (simp_all add: proper_def)

lemma resolve_Clean:
  assumes "p \<noteq> []"
  shows "resolve wd (path_Clean p) = resolve wd p"
proof (cases "IsAbs p")
  case True
  define out where "out = foldl (clean_step True) [] (split_slash p)"
  have "list_all plain []" by simp
  moreover have "\<forall>c \<in> set (split_slash p). slash \<notin> set c"
    using split_slash_elements by blast
  ultimately have out: "out = foldl walk [] (split_slash p)" and pl: "list_all plain out"
    using clean_rooted_walk [of "[]" "split_slash p"] by (simp_all add: out_def)
  have cl: "path_Clean p = slash # join_slash out"
    using True by (simp add: path_Clean_def out_def)
  have "foldl walk [] (split_slash (join_slash out)) = out"
  proof (cases "out = []")
    case True
    then show ?thesis by (simp add: walk_def)
  next
    case False
    with pl have "split_slash (join_slash out) = out"
      by (intro split_join_slash proper_no_slash plain_proper)
    with pl show ?thesis by (simp add: foldl_walk_plain)
  qed
  then have "resolve wd (path_Clean p) = Some out"
    by (simp add: cl resolve_def IsAbs_def walk_def)
  moreover have "resolve wd p = Some out"
    using True assms by (simp add: resolve_def out)
  ultimately show ?thesis by simp
next
  case False
  define out where "out = foldl (clean_step False) [] (split_slash p)"
  have el: "\<forall>c \<in> set (split_slash p). slash \<notin> set c"
    using split_slash_elements by blast
  have walk_out: "foldl walk at out = foldl walk at (split_slash p)" for at
    using clean_relative_walk [of "[]" "split_slash p" at] el by (simp add: out_def)
  have pr: "list_all proper out"
    using clean_relative_walk [of "[]" "split_slash p"] el by (simp add: out_def)
  have cl: "path_Clean p = (if out = [] then ''.'' else join_slash out)"
    using False by (simp add: path_Clean_def out_def)
  show ?thesis
  proof (cases wd)
    case None
    have "path_Clean p \<noteq> [] \<and> \<not> IsAbs (path_Clean p)"
      using join_slash_relative [OF _ pr] by (simp add: cl IsAbs_def slash_def)
    with None False assms show ?thesis by (simp add: resolve_def)
  next
    case (Some d)
    have rel: "path_Clean p \<noteq> [] \<and> \<not> IsAbs (path_Clean p)"
      using join_slash_relative [OF _ pr] by (simp add: cl IsAbs_def slash_def)
    have "foldl walk at (split_slash (path_Clean p)) = foldl walk at (split_slash p)" for at
    proof (cases "out = []")
      case True
      with walk_out [of at] show ?thesis by (simp add: cl walk_def slash_def)
    next
      case False
      with pr have "split_slash (join_slash out) = out"
        by (intro split_join_slash proper_no_slash)
      with False walk_out [of at] show ?thesis by (simp add: cl)
    qed
    with Some False assms rel show ?thesis by (simp add: resolve_def)
  qed
qed

lemma IsAbs_append: "IsAbs d \<Longrightarrow> IsAbs (d @ x)"
  by (cases d) (simp_all add: IsAbs_def)

lemma path_Join_two:
  "d \<noteq> [] \<Longrightarrow> x \<noteq> [] \<Longrightarrow> path_Join [d, x] = path_Clean (d @ slash # x)"
  by (simp add: path_Join_def)

lemma filepath_Abs_same_place:
  assumes "filepath_Abs x s = Inr full" and "x \<noteq> []"
    and "\<forall>d. workdir s = Some d \<longrightarrow> IsAbs d"
  shows "resolve (workdir s) full = resolve (workdir s) x"
proof (cases "IsAbs x")
  case True
  with assms(1) have "full = path_Clean x" by (simp add: filepath_Abs_def)
  with assms(2) show ?thesis by (simp add: resolve_Clean)
next
  case False
  with assms(1) obtain d where d: "workdir s = Some d" and full: "full = path_Join [d, x]"
    by (auto simp: filepath_Abs_def os_Getwd_def split: option.splits)
  with assms(3) have abs: "IsAbs d" by simp
  then have ne: "d \<noteq> []" by (auto simp: IsAbs_def)
  have "resolve (workdir s) full = resolve (workdir s) (d @ slash # x)"
    using ne assms(2) by (simp add: full path_Join_two resolve_Clean)
  also have "\<dots> = Some (foldl walk [] (split_slash d @ split_slash x))"
    using abs by (simp add: resolve_def IsAbs_append split_slash_append)
  also have "\<dots> = resolve (workdir s) x"
    using False assms(2) d by (simp add: resolve_def)
  finally show ?thesis .
qed


lemma path_Clean_not_Nil: "path_Clean p \<noteq> []"
proof (cases "IsAbs p")
  case True
  then show ?thesis by (simp add: path_Clean_def)
next
  case False
  define out where "out = foldl (clean_step False) [] (split_slash p)"
  have "\<forall>c \<in> set (split_slash p). slash \<notin> set c"
    using split_slash_elements by blast
  then have "list_all proper out"
    using clean_relative_walk [of "[]" "split_slash p"] by (simp add: out_def)
  then have "out \<noteq> [] \<longrightarrow> join_slash out \<noteq> []"
    using join_slash_relative by blast
  with False show ?thesis by (simp add: path_Clean_def out_def [symmetric])
qed

lemma path_Join_not_Nil: "x \<noteq> [] \<Longrightarrow> path_Join [d, x] \<noteq> []"
  by (simp add: path_Join_def path_Clean_not_Nil)

subsection \<open>The paths the listing and the download handler access\<close>

text \<open>
  C9. The listing handler gives package os one path, the absolute form of
  \<open>join(ServeRoot, p)\<close>, in one call of \<open>os.ReadDir\<close> (none when the URL path is not
  \<open>/\<close> or the absolute form cannot be computed). The download handler gives it
  \<open>join(ServeRoot, p)\<close> as it is, in one call of \<open>os.Open\<close>. Neither makes another call.
  Where the working directory is a rooted path, the absolute form leads to the same place
  of the tree as the join itself.
\<close>

theorem accessed_paths:
  assumes "getQueryValueOrDefault (URL_Query r) ''p'' ''.'' = p"
  shows "(case handleRootGet g r s of
            Inl x \<Rightarrow> False
          | Inr s' \<Rightarrow>
              syscalls s' = syscalls s @
                (if URL_Path r = ''/'' then
                   (case filepath_Abs (path_Join [serveDir g, p]) s of
                      Inl err \<Rightarrow> []
                    | Inr fullPath \<Rightarrow> [ReadDir fullPath])
                 else [])) \<and>
         (\<forall>fullPath. filepath_Abs (path_Join [serveDir g, p]) s = Inr fullPath \<and>
                     (\<forall>d. workdir s = Some d \<longrightarrow> IsAbs d) \<longrightarrow>
            resolve (workdir s) fullPath = resolve (workdir s) (path_Join [serveDir g, p])) \<and>
         (case handleDownloadGet g r s of
            Inl x \<Rightarrow> False
          | Inr s' \<Rightarrow> syscalls s' = syscalls s @ [Open (path_Join [serveDir g, p])])"
proof -
  have ne: "p \<noteq> []"
    using getQueryValueOrDefault_nonempty [of "''.''" "URL_Query r" "''p''"] assms by simp
  have listing: "(case handleRootGet g r s of
            Inl x \<Rightarrow> False
          | Inr s' \<Rightarrow>
              syscalls s' = syscalls s @
                (if URL_Path r = ''/'' then
                   (case filepath_Abs (path_Join [serveDir g, p]) s of
                      Inl err \<Rightarrow> []
                    | Inr fullPath \<Rightarrow> [ReadDir fullPath])
                 else []))"
    using assms
    by (auto simp: handleRootGet_def Let_def os_ReadDir_def fail_def tmpl_Execute_def
        addQueryToPath_root appendEntries_map
        split: sum.splits option.splits node.splits prod.splits)
  have same: "\<forall>fullPath. filepath_Abs (path_Join [serveDir g, p]) s = Inr fullPath \<and>
                     (\<forall>d. workdir s = Some d \<longrightarrow> IsAbs d) \<longrightarrow>
            resolve (workdir s) fullPath = resolve (workdir s) (path_Join [serveDir g, p])"
    using filepath_Abs_same_place [OF _ path_Join_not_Nil [OF ne]] by blast
  have download: "(case handleDownloadGet g r s of
            Inl x \<Rightarrow> False
          | Inr s' \<Rightarrow> syscalls s' = syscalls s @ [Open (path_Join [serveDir g, p])])"
    using assms
    by (auto simp: handleDownloadGet_def Let_def os_Open_def fail_def io_Copy_response_def
        logClose_def closeFile_simps
        split: sum.splits option.splits prod.splits)
  from listing same download show ?thesis by blast
qed

theorem accessed_paths_witness:
  "getQueryValueOrDefault (URL_Query (get_request ''/'' [(''p'', [''a''])])) ''p'' ''.'' = ''a'' \<and>
   filepath_Abs (path_Join [''srv'', ''a'']) (example_state\<lparr>workdir := Some ''/''\<rparr>) = Inr ''/srv/a'' \<and>
   IsAbs ''/'' \<and>
   resolve (Some ''/'') ''/srv/a'' = resolve (Some ''/'') (path_Join [''srv'', ''a'']) \<and>
   (case handleRootGet (example_globals\<lparr>serveDir := ''srv''\<rparr>) (get_request ''/'' [(''p'', [''a''])]) example_state of
      Inl x \<Rightarrow> False | Inr s' \<Rightarrow> syscalls s' = [ReadDir ''/srv/a'']) \<and>
   (case handleDownloadGet (example_globals\<lparr>serveDir := ''srv''\<rparr>) (get_request ''/'' [(''p'', [''a''])]) example_state of
      Inl x \<Rightarrow> False | Inr s' \<Rightarrow> syscalls s' = [Open ''srv/a''])"
proof -
  have h: "getQueryValueOrDefault (URL_Query (get_request ''/'' [(''p'', [''a''])])) ''p'' ''.'' = ''a''"
    by (simp add: get_request_def getQueryValueOrDefault_def Values_index_def)
  have a: "filepath_Abs (path_Join [''srv'', ''a'']) (example_state\<lparr>workdir := Some ''/''\<rparr>) = Inr ''/srv/a''"
    by (simp add: example_defs os_defs path_defs)
  have j: "path_Join [''srv'', ''a''] = ''srv/a''"
    by (simp add: path_defs)
  show ?thesis
    using accessed_paths [OF h, where g = "example_globals\<lparr>serveDir := ''srv''\<rparr>" and s = example_state] h a
    by (simp add: example_defs j filepath_Abs_def os_Getwd_def path_defs cong: sum.case_cong)
qed

subsection \<open>The tree\<close>

lemma lookup_append:
  "lookup n (cs @ ds) = (case lookup n cs of None \<Rightarrow> None | Some k \<Rightarrow> lookup k ds)"
proof (induction cs arbitrary: n)
  case Nil
  show ?case by simp
next
  case (Cons c cs)
  show ?case by (cases n) (simp_all add: Cons split: option.splits)
qed

lemma lookup_parent_is_Dir:
  assumes "lookup n cs = Some m"
  shows "\<exists>es. lookup n (butlast cs) = Some (Dir es) \<or> cs = []"
proof (cases "cs = []")
  case True
  then show ?thesis by simp
next
  case False
  then have "cs = butlast cs @ [last cs]" by simp
  then have "lookup n (butlast cs @ [last cs]) = Some m" using assms by simp
  then obtain k where k: "lookup n (butlast cs) = Some k" and "lookup k [last cs] = Some m"
    by (auto simp: lookup_append simp del: append_butlast_last_id split: option.splits)
  then show ?thesis by (cases k) auto
qed

lemma store_on_Dir: "lookup n cs = Some (Dir es) \<Longrightarrow> store n cs b = None"
proof (induction cs arbitrary: n)
  case Nil
  then show ?case by simp
next
  case (Cons c cs)
  then show ?case by (cases n) (auto split: option.splits)
qed

lemma store_on_File: "lookup n cs = Some (File old) \<Longrightarrow> \<exists>n'. store n cs b = Some n'"
proof (induction cs arbitrary: n)
  case Nil
  then show ?case by simp
next
  case (Cons c cs)
  then show ?case by (cases n) (fastforce split: option.splits)+
qed

lemma lookup_store: "store n cs b = Some n' \<Longrightarrow> lookup n' cs = Some (File b)"
proof (induction cs arbitrary: n n')
  case Nil
  then show ?case by (cases n) auto
next
  case (Cons c cs)
  show ?case
  proof (cases n)
    case (File old)
    with Cons.prems show ?thesis by simp
  next
    case (Dir es)
    show ?thesis
    proof (cases "map_of es c")
      case None
      with Cons.prems Dir show ?thesis
        by (auto simp: map_add_def split: if_splits)
    next
      case (Some k)
      with Cons.prems Dir obtain k' where "store k cs b = Some k'" and "n' = Dir (AList.update c k' es)"
        by (auto split: option.splits)
      with Cons.IH [of k k'] show ?thesis by (simp add: update_conv')
    qed
  qed
qed

subsection \<open>Reading the part named file\<close>

lemma io_Copy_file_created:
  assumes "lookup (disk s) f = Some (File [])"
  shows "\<exists>s1. io_Copy_file f p s = (copy_error (ReadErr p), s1) \<and>
    lookup (disk s1) f = Some (File (Content p)) \<and>
    resp s1 = resp s \<and> workdir s1 = workdir s \<and> syscalls s1 = syscalls s \<and> logged s1 = logged s"
proof (cases "Content p = []")
  case True
  with assms show ?thesis by (simp add: io_Copy_file_def)
next
  case False
  from store_on_File [OF assms] obtain d where d: "store (disk s) f (Content p) = Some d"
    by blast
  then have "lookup d f = Some (File (Content p))" by (rule lookup_store)
  with False assms d show ?thesis by (simp add: io_Copy_file_def file_Write_def)
qed

lemma readPart_file:
  assumes "FormName p = ''file''"
    and "path_Join [outputDir g, path_Base (FileName p)] = outputPath"
  shows "\<exists>s1. readPart g (Some p) s =
        Inr ((case fst (os_Create outputPath s) of
                Inl err \<Rightarrow> (False, Some err)
              | Inr f \<Rightarrow> (copy_error (ReadErr p) = None, copy_error (ReadErr p))), s1) \<and>
      resp s1 = resp s \<and> workdir s1 = workdir s \<and>
      syscalls s1 = syscalls s @ [Create outputPath] \<and>
      (case fst (os_Create outputPath s) of
         Inl err \<Rightarrow> disk s1 = disk s
       | Inr f \<Rightarrow> node_at s1 outputPath = Some (File (Content p)))"
proof -
  define s0 where "s0 = log_Printf (''Receive upload of file name '' @ FileName p
                                     @ ''. Writing to '' @ outputPath @ ''.'') s"
  have s0: "disk s0 = disk s" "workdir s0 = workdir s" "syscalls s0 = syscalls s" "resp s0 = resp s"
    by (simp_all add: s0_def log_Printf_def)
  have same: "fst (os_Create outputPath s0) = fst (os_Create outputPath s)"
    by (simp add: os_Create_def s0 Let_def split: option.splits)
  have unfold: "readPart g (Some p) s =
      (case os_Create outputPath s0 of
         (Inl err, s2) \<Rightarrow> Inr ((False, Some err), logClose (part_Close p) s2)
       | (Inr f, s2) \<Rightarrow>
           (case io_Copy_file f p s2 of
              (Some err, s3) \<Rightarrow>
                Inr ((False, Some err), logClose (part_Close p) (closeFile f s3))
            | (None, s3) \<Rightarrow>
                Inr ((True, None), logClose (part_Close p) (closeFile f s3))))"
    unfolding readPart_def Let_def s0_def
    by (simp only: assms option.case simp_thms if_False)
  show ?thesis
  proof (cases "os_Create outputPath s0")
    case (Pair res s2)
    show ?thesis
    proof (cases res)
      case (Inl err)
      with Pair have "disk s2 = disk s \<and> resp s2 = resp s \<and> workdir s2 = workdir s \<and>
          syscalls s2 = syscalls s @ [Create outputPath]"
        by (auto simp: os_Create_def s0 Let_def split: option.splits)
      moreover have "fst (os_Create outputPath s) = Inl err"
        using Pair Inl same by simp
      ultimately show ?thesis
        using Pair Inl by (simp add: unfold logClose_def part_Close_def)
    next
      case (Inr f)
      with Pair obtain d where f: "resolve (workdir s) outputPath = Some f"
        and d: "store (disk s) f [] = Some d"
        and s2: "s2 = s0\<lparr>syscalls := syscalls s0 @ [Create outputPath], disk := d\<rparr>"
        by (auto simp: os_Create_def s0 Let_def split: option.splits)
      from d have "lookup (disk s2) f = Some (File [])"
        by (simp add: s2 lookup_store)
      from io_Copy_file_created [OF this, of p] obtain s3 where
        copy: "io_Copy_file f p s2 = (copy_error (ReadErr p), s3)"
        and s3: "lookup (disk s3) f = Some (File (Content p))" "resp s3 = resp s2"
          "workdir s3 = workdir s2" "syscalls s3 = syscalls s2"
        by blast
      have at: "node_at s3 outputPath = Some (File (Content p))"
        using f s3 by (simp add: node_at_def s2 s0)
      have fs: "fst (os_Create outputPath s) = Inr f"
        using Pair Inr same by simp
      show ?thesis
      proof (cases "copy_error (ReadErr p)")
        case None
        with Pair Inr fs copy s3 at show ?thesis
          by (simp add: unfold logClose_def part_Close_def closeFile_simps node_at_closeFile s2 s0)
      next
        case (Some err)
        with Pair Inr fs copy s3 at show ?thesis
          by (simp add: unfold logClose_def part_Close_def closeFile_simps node_at_closeFile s2 s0)
      qed
    qed
  qed
qed

lemma canonical_Location: "CanonicalHeaderKey ''Location'' = ''Location''"
  by (simp add: CanonicalHeaderKey_def to_upper_def to_lower_def is_lower_def is_upper_def)

lemma redirect_POST:
  "Method r = ''POST'' \<Longrightarrow>
   http_Redirect r ''/'' 302 new_response =
     new_response\<lparr>Header := (Header new_response)(''Location'' := [''/'']), Code := Some 302\<rparr>"
  by (simp add: http_Redirect_def Let_def path_defs Header_Set_def WriteHeader_def
      canonical_Location new_response_def)

lemma uploadParts_file_part:
  assumes "list_all (\<lambda>q. FormName q \<noteq> ''file'') pre"
    and "FormName p = ''file''"
    and "readPart g (Some p) s = Inr ((ok, err1), s1)"
    and "ok \<or> err1 \<noteq> None"
  shows "uploadParts g (pre @ p # rest, e) s =
     (if err1 \<noteq> None then Inr (Return, fail 400 s1) else Inr (Break, s1))"
  using assms by (auto simp: uploadParts_skip uploadParts_Cons)

lemma node_at_resp: "node_at (s\<lparr>resp := rw\<rparr>) name = node_at s name"
  by (simp add: node_at_def split: option.splits)

lemma node_at_fail: "node_at (fail c s) name = node_at s name"
  by (simp add: node_at_def fail_def split: option.splits)

text \<open>
  C1, as the claim states it, fails: a part named \<open>file\<close> does not always end in a file
  and a redirect. A form field named \<open>file\<close> that carries no filename has the base name
  \<open>.\<close>, the destination is the output directory itself, \<open>os.Create\<close> fails on it and the
  response is 400; nothing is written.
\<close>

theorem upload_file_part_counterexample:
  "(case uploadRoute example_globals
           (post_request ''/upload'' [form_field ''file'' ''hello''] EOF) example_state of
      Inl x \<Rightarrow> False
    | Inr s' \<Rightarrow> StatusCode (resp s') = 400 \<and> StatusCode (resp s') \<noteq> 302 \<and>
        disk s' = example_disk \<and> syscalls s' = [Create ''/srv''])"
  by (simp add: uploadRoute_POST handleUploadPost_def uploadParts_Cons readPart_def
      example_defs os_defs path_defs response_defs Let_def part_Close_def)

lemma uploadRoute_file_part:
  assumes "Method r = ''POST''"
    and "MultipartReader r = Inr (pre @ p # rest, e)"
    and "\<forall>q \<in> set pre. FormName q \<noteq> ''file''"
    and "FormName p = ''file''"
    and "resp s = new_response"
    and "path_Join [outputDir g, path_Base (FileName p)] = outputPath"
  shows "case uploadRoute g r s of
      Inl x \<Rightarrow> False
    | Inr s' \<Rightarrow>
        syscalls s' = syscalls s @ [Create outputPath] \<and>
        uploadRoute g (r\<lparr>MultipartReader := Inr (pre @ [p], EOF)\<rparr>) s = Inr s' \<and>
        (case fst (os_Create outputPath s) of
           Inl err \<Rightarrow>
             StatusCode (resp s') = 400 \<and> Body (resp s') = newline \<and> disk s' = disk s
         | Inr f \<Rightarrow>
             node_at s' outputPath = Some (File (Content p)) \<and>
             (if copy_error (ReadErr p) = None
              then StatusCode (resp s') = 302 \<and> Header (resp s') ''Location'' = [''/''] \<and>
                   Body (resp s') = []
              else StatusCode (resp s') = 400 \<and> Body (resp s') = newline))"
proof -
  from assms(3) have pre: "list_all (\<lambda>q. FormName q \<noteq> ''file'') pre"
    by (simp add: list_all_iff)
  define res where "res = (case fst (os_Create outputPath s) of
                Inl err \<Rightarrow> (False, Some err)
              | Inr f \<Rightarrow> (copy_error (ReadErr p) = None, copy_error (ReadErr p)))"
  from readPart_file [OF assms(4) assms(6), of s] obtain s1 where
    rp: "readPart g (Some p) s = Inr (res, s1)"
    and s1: "resp s1 = resp s" "workdir s1 = workdir s"
      "syscalls s1 = syscalls s @ [Create outputPath]"
    and fs: "(case fst (os_Create outputPath s) of
         Inl err \<Rightarrow> disk s1 = disk s
       | Inr f \<Rightarrow> node_at s1 outputPath = Some (File (Content p)))"
    unfolding res_def by blast
  have ok: "fst res \<or> snd res \<noteq> None"
    by (auto simp: res_def split: sum.splits)
  have loop: "uploadParts g (pre @ p # rest', e') s =
     (if snd res \<noteq> None then Inr (Return, fail 400 s1) else Inr (Break, s1))" for rest' e'
    using uploadParts_file_part [OF pre assms(4), of g s "fst res" "snd res" s1] rp ok by simp
  define s' where "s' = (if snd res \<noteq> None then fail 400 s1
                         else s1\<lparr>resp := http_Redirect r ''/'' 302 (resp s1)\<rparr>)"
  have run: "uploadRoute g r s = Inr s'"
    using assms(1,2) loop [of rest e] by (simp add: uploadRoute_POST handleUploadPost_def s'_def)
  have cut: "uploadRoute g (r\<lparr>MultipartReader := Inr (pre @ [p], EOF)\<rparr>) s = Inr s'"
    using assms(1) loop [of "[]" EOF]
    by (simp add: uploadRoute_POST handleUploadPost_def s'_def http_Redirect_def)
  have calls: "syscalls s' = syscalls s @ [Create outputPath]"
    using s1 by (simp add: s'_def fail_def)
  have fresh: "resp s1 = new_response"
    using s1 assms(5) by simp
  have outcome: "(case fst (os_Create outputPath s) of
           Inl err \<Rightarrow>
             StatusCode (resp s') = 400 \<and> Body (resp s') = newline \<and> disk s' = disk s
         | Inr f \<Rightarrow>
             node_at s' outputPath = Some (File (Content p)) \<and>
             (if copy_error (ReadErr p) = None
              then StatusCode (resp s') = 302 \<and> Header (resp s') ''Location'' = [''/''] \<and>
                   Body (resp s') = []
              else StatusCode (resp s') = 400 \<and> Body (resp s') = newline))"
  proof (cases "fst (os_Create outputPath s)")
    case (Inl err)
    with fs fail_fresh [OF fresh, of 400] show ?thesis
      by (simp add: s'_def res_def)
  next
    case (Inr f)
    show ?thesis
    proof (cases "copy_error (ReadErr p)")
      case None
      have "resp s' = http_Redirect r ''/'' 302 new_response"
        using None Inr fresh by (simp add: s'_def res_def)
      then have "StatusCode (resp s') = 302 \<and> Header (resp s') ''Location'' = [''/''] \<and>
          Body (resp s') = []"
        using assms(1) by (simp add: redirect_POST StatusCode_def) (simp add: new_response_def)
      with None Inr fs show ?thesis
        by (simp add: s'_def res_def node_at_resp)
    next
      case (Some err)
      with Inr fs fail_fresh [OF fresh, of 400] show ?thesis
        by (simp add: s'_def res_def node_at_fail)
    qed
  qed
  from run cut calls outcome show ?thesis by simp
qed

text \<open>
  C1, amended. For a POST to \<open>/upload\<close> whose first part named \<open>file\<close> comes after parts
  of other names only, the handler calls \<open>os.Create\<close> once, on
  \<open>join(OutputDirectory, base name of the filename)\<close>, and reads no part after this one
  (the result is that of the body cut after it). If the create succeeds and the part is
  read to its end, the file there holds exactly the bytes of the part and the response is
  302 to \<open>/\<close>. If the create fails, nothing is written and the response is 400; if the
  reading of the part fails, the file holds the bytes read so far and the response is 400.
\<close>

theorem upload_first_file_part:
  assumes "Method r = ''POST''"
    and "MultipartReader r = Inr (pre @ p # rest, e)"
    and "\<forall>q \<in> set pre. FormName q \<noteq> ''file''"
    and "FormName p = ''file''"
    and "resp s = new_response"
    and "path_Join [outputDir g, path_Base (FileName p)] = outputPath"
  shows "case uploadRoute g r s of
      Inl x \<Rightarrow> False
    | Inr s' \<Rightarrow>
        syscalls s' = syscalls s @ [Create outputPath] \<and>
        uploadRoute g (r\<lparr>MultipartReader := Inr (pre @ [p], EOF)\<rparr>) s = Inr s' \<and>
        (case fst (os_Create outputPath s) of
           Inl err \<Rightarrow>
             StatusCode (resp s') = 400 \<and> Body (resp s') = newline \<and> disk s' = disk s
         | Inr f \<Rightarrow>
             node_at s' outputPath = Some (File (Content p)) \<and>
             (if copy_error (ReadErr p) = None
              then StatusCode (resp s') = 302 \<and> Header (resp s') ''Location'' = [''/''] \<and>
                   Body (resp s') = []
              else StatusCode (resp s') = 400 \<and> Body (resp s') = newline))"
  using assms by (rule uploadRoute_file_part)

theorem upload_first_file_part_witness:
  "(case uploadRoute example_globals
           (post_request ''/upload''
              [form_field ''note'' ''x'', form_file ''file'' ''dir/up.txt'' ''hello'',
               form_file ''file'' ''second.txt'' ''ignored''] EOF) example_state of
      Inl x \<Rightarrow> False
    | Inr s' \<Rightarrow>
        syscalls s' = [Create ''/srv/up.txt''] \<and>
        node_at s' ''/srv/up.txt'' = Some (File ''hello'') \<and>
        StatusCode (resp s') = 302 \<and> Header (resp s') ''Location'' = [''/''] \<and>
        Body (resp s') = [])"
proof -
  let ?r = "post_request ''/upload''
              [form_field ''note'' ''x'', form_file ''file'' ''dir/up.txt'' ''hello'',
               form_file ''file'' ''second.txt'' ''ignored''] EOF"
  have h1: "Method ?r = ''POST''"
    by (simp add: post_request_def)
  have h2: "MultipartReader ?r =
      Inr ([form_field ''note'' ''x''] @ form_file ''file'' ''dir/up.txt'' ''hello''
             # [form_file ''file'' ''second.txt'' ''ignored''], EOF)"
    by (simp add: post_request_def)
  have h3: "\<forall>q \<in> set [form_field ''note'' ''x'']. FormName q \<noteq> ''file''"
    by (simp add: form_field_def)
  have h4: "FormName (form_file ''file'' ''dir/up.txt'' ''hello'') = ''file''"
    by (simp add: form_file_def)
  have h5: "resp example_state = new_response"
    by (simp add: example_state_def)
  have h6: "path_Join [outputDir example_globals,
                path_Base (FileName (form_file ''file'' ''dir/up.txt'' ''hello''))] = ''/srv/up.txt''"
    by (simp add: example_defs path_defs)
  have c: "fst (os_Create ''/srv/up.txt'' example_state) = Inr [''srv'', ''up.txt'']"
    by (simp add: example_defs os_defs path_defs)
  show ?thesis
    using upload_first_file_part [OF h1 h2 h3 h4 h5 h6] c
    by (auto simp: form_file_def copy_error_def example_state_def split: sum.splits)
qed

subsection \<open>The download\<close>

lemma canonical_content_type: "CanonicalHeaderKey ''content-type'' = ''Content-Type''"
  by code_simp

lemma canonical_Content_Type: "CanonicalHeaderKey ''Content-Type'' = ''Content-Type''"
  by code_simp

lemma canonical_content_disposition:
  "CanonicalHeaderKey ''content-disposition'' = ''Content-Disposition''"
  by code_simp

lemma canonical_nosniff:
  "CanonicalHeaderKey ''X-Content-Type-Options'' = ''X-Content-Type-Options''"
  by code_simp

lemmas canonical_keys = canonical_content_type canonical_Content_Type
  canonical_content_disposition canonical_nosniff canonical_Location

text \<open>
  C6, as the claim states it, fails: when the file cannot be opened the status is 500, but
  the body is not empty. It is the newline that \<open>http.Error\<close> prints after the empty message.
\<close>

theorem download_missing_body_counterexample:
  "(case downloadRoute example_globals (get_request ''/download'' [(''p'', [''missing''])])
           example_state of
      Inl x \<Rightarrow> False
    | Inr s' \<Rightarrow> syscalls s' = [Open ''/srv/missing''] \<and> StatusCode (resp s') = 500 \<and>
        Body (resp s') = [CHR 0x0A] \<and> Body (resp s') \<noteq> [])"
  by (simp add: downloadRoute_def routeByMethod_def handleDownloadGet_def
      getQueryValueOrDefault_def Values_index_def
      example_defs os_defs path_defs response_defs newline_def Let_def)

lemma handleDownloadGet_outcome:
  assumes "getQueryValueOrDefault (URL_Query r) ''p'' ''.'' = p"
    and "path_Join [serveDir g, p] = fsPath"
    and "resp s = new_response"
  shows "case handleDownloadGet g r s of
      Inl x \<Rightarrow> False
    | Inr s' \<Rightarrow>
        syscalls s' = syscalls s @ [Open fsPath] \<and>
        (case node_at s fsPath of
           None \<Rightarrow> StatusCode (resp s') = 500 \<and> Body (resp s') = newline
         | Some (File b) \<Rightarrow>
             Header (resp s') ''Content-Type'' = [''application/octet-stream''] \<and>
             Header (resp s') ''Content-Disposition'' =
               [''attachment; filename='' @ [dquote] @ path_Base fsPath @ [dquote]] \<and>
             Body (resp s') = b \<and>
             (if b = [] then Code (resp s') = Some 204 \<and> Superfluous (resp s') = []
              else Code (resp s') = Some 200 \<and> Superfluous (resp s') = [204])
         | Some (Dir es) \<Rightarrow>
             StatusCode (resp s') = 500 \<and> Body (resp s') = newline \<and>
             Header (resp s') ''Content-Type'' = [''text/plain; charset=utf-8''])"
proof (cases "node_at s fsPath")
  case None
  with assms show ?thesis
    by (auto simp: handleDownloadGet_def Let_def os_Open_def node_at_def response_defs
        split: option.splits)
next
  case (Some n)
  then obtain cs where cs: "resolve (workdir s) fsPath = Some cs" and n: "lookup (disk s) cs = Some n"
    by (auto simp: node_at_def split: option.splits)
  show ?thesis
  proof (cases n)
    case (File b)
    with assms Some cs n show ?thesis
      by (simp add: handleDownloadGet_def Let_def os_Open_def io_Copy_response_def file_Read_def
          copy_error_def logClose_def closeFile_simps response_defs canonical_keys)
  next
    case (Dir es)
    with assms Some cs n show ?thesis
      by (simp add: handleDownloadGet_def Let_def os_Open_def io_Copy_response_def file_Read_def
          copy_error_def logClose_def closeFile_simps response_defs canonical_keys)
  qed
qed

text \<open>
  C6, amended. The download handler opens \<open>join(ServeRoot, p)\<close>. If nothing is there, the
  response is 500 with a body of one newline and no byte of a file. If a regular file is
  there, the response has the Content-Type \<open>application/octet-stream\<close>, the
  Content-Disposition \<open>attachment\<close> with the base name of the path as the filename, and the
  whole file as its body; the handler then writes the status 204, which is the status of
  the response when the file is empty and is ignored (the status is already 200)
  otherwise. If a directory is there, the open succeeds and the reading fails: the response
  is 500 with a body of one newline and the Content-Type of \<open>http.Error\<close>.
\<close>

theorem download_response:
  assumes "getQueryValueOrDefault (URL_Query r) ''p'' ''.'' = p"
    and "path_Join [serveDir g, p] = fsPath"
    and "resp s = new_response"
  shows "case handleDownloadGet g r s of
      Inl x \<Rightarrow> False
    | Inr s' \<Rightarrow>
        syscalls s' = syscalls s @ [Open fsPath] \<and>
        (case node_at s fsPath of
           None \<Rightarrow> StatusCode (resp s') = 500 \<and> Body (resp s') = newline
         | Some (File b) \<Rightarrow>
             Header (resp s') ''Content-Type'' = [''application/octet-stream''] \<and>
             Header (resp s') ''Content-Disposition'' =
               [''attachment; filename='' @ [dquote] @ path_Base fsPath @ [dquote]] \<and>
             Body (resp s') = b \<and>
             (if b = [] then Code (resp s') = Some 204 \<and> Superfluous (resp s') = []
              else Code (resp s') = Some 200 \<and> Superfluous (resp s') = [204])
         | Some (Dir es) \<Rightarrow>
             StatusCode (resp s') = 500 \<and> Body (resp s') = newline \<and>
             Header (resp s') ''Content-Type'' = [''text/plain; charset=utf-8''])"
  using assms by (rule handleDownloadGet_outcome)

theorem download_response_witness:
  "(case handleDownloadGet example_globals (get_request ''/download'' [(''p'', [''missing''])])
           example_state of
      Inl x \<Rightarrow> False
    | Inr s' \<Rightarrow> StatusCode (resp s') = 500 \<and> Body (resp s') = newline) \<and>
   (case handleDownloadGet example_globals (get_request ''/download'' [(''p'', [''b.txt''])])
           example_state of
      Inl x \<Rightarrow> False
    | Inr s' \<Rightarrow>
        Header (resp s') ''Content-Type'' = [''application/octet-stream''] \<and>
        Header (resp s') ''Content-Disposition'' =
          [''attachment; filename='' @ [dquote] @ ''b.txt'' @ [dquote]] \<and>
        Body (resp s') = ''hello'' \<and> Code (resp s') = Some 200 \<and> Superfluous (resp s') = [204]) \<and>
   (case handleDownloadGet example_globals (get_request ''/download'' [(''p'', [''b.txt''])])
           (example_state\<lparr>disk := Dir [(''srv'', Dir [(''b.txt'', File [])])]\<rparr>) of
      Inl x \<Rightarrow> False
    | Inr s' \<Rightarrow> Body (resp s') = [] \<and> Code (resp s') = Some 204 \<and> Superfluous (resp s') = []) \<and>
   (case handleDownloadGet example_globals (get_request ''/download'' []) example_state of
      Inl x \<Rightarrow> False
    | Inr s' \<Rightarrow> StatusCode (resp s') = 500 \<and> Body (resp s') = newline \<and>
        Header (resp s') ''Content-Type'' = [''text/plain; charset=utf-8''])"
proof -
  have q: "getQueryValueOrDefault (URL_Query (get_request ''/download'' [(''p'', [v])])) ''p'' ''.''
      = (if v = [] then ''.'' else v)" for v
    by (simp add: get_request_def getQueryValueOrDefault_def Values_index_def)
  have q0: "getQueryValueOrDefault (URL_Query (get_request ''/download'' [])) ''p'' ''.'' = ''.''"
    by (simp add: get_request_def getQueryValueOrDefault_def Values_index_def)
  have j1: "path_Join [serveDir example_globals, ''missing''] = ''/srv/missing''"
    and j2: "path_Join [serveDir example_globals, ''b.txt''] = ''/srv/b.txt''"
    and j3: "path_Join [serveDir example_globals, ''.''] = ''/srv''"
    by (simp_all add: example_defs path_defs)
  have f: "resp example_state = new_response"
    "resp (example_state\<lparr>disk := Dir [(''srv'', Dir [(''b.txt'', File [])])]\<rparr>) = new_response"
    by (simp_all add: example_state_def)
  have n1: "node_at example_state ''/srv/missing'' = None"
    and n2: "node_at example_state ''/srv/b.txt'' = Some (File ''hello'')"
    and n3: "node_at (example_state\<lparr>disk := Dir [(''srv'', Dir [(''b.txt'', File [])])]\<rparr>)
               ''/srv/b.txt'' = Some (File [])"
    and n4: "node_at example_state ''/srv'' = Some (Dir [(''b.txt'', File ''hello''), (''a'', Dir [])])"
    by (simp_all add: example_defs os_defs path_defs)
  have b: "path_Base ''/srv/b.txt'' = ''b.txt''"
    by (simp add: path_defs)
  show ?thesis
    using download_response [OF _ j1 f(1), of "get_request ''/download'' [(''p'', [''missing''])]"]
      download_response [OF _ j2 f(1), of "get_request ''/download'' [(''p'', [''b.txt''])]"]
      download_response [OF _ j2 f(2), of "get_request ''/download'' [(''p'', [''b.txt''])]"]
      download_response [OF q0 j3 f(1)]
    by (auto simp: q n1 n2 n3 n4 b split: sum.splits)
qed

subsection \<open>The bodies of error responses\<close>











subsection \<open>The base name of a joined path\<close>

lemma join_slash_snoc:
  "join_slash (xs @ [b]) = (if xs = [] then b else join_slash xs @ slash # b)"
  by (induction xs rule: join_slash.induct) simp_all

lemma path_Base_suffix:
  assumes "b \<noteq> []" and "slash \<notin> set b" and "pre = [] \<or> last pre = slash"
  shows "path_Base (pre @ b) = b"
proof -
  have hd_b: "hd (rev b) \<noteq> slash"
    using assms(1,2) by (metis hd_rev last_in_set)
  have keep: "dropWhile (\<lambda>c. c = slash) (rev b @ rev pre) = rev b @ rev pre"
    using assms(1) hd_b by (cases "rev b") simp_all
  have stop: "takeWhile (\<lambda>c. c \<noteq> slash) (rev pre) = []"
    using assms(3) by (cases pre rule: rev_cases) simp_all
  have "takeWhile (\<lambda>c. c \<noteq> slash) (rev b @ rev pre)
      = rev b @ takeWhile (\<lambda>c. c \<noteq> slash) (rev pre)"
    by (rule takeWhile_append2) (use assms(2) in auto)
  with stop have "takeWhile (\<lambda>c. c \<noteq> slash) (rev b @ rev pre) = rev b"
    by simp
  with keep assms(1) show ?thesis
    by (simp add: path_Base_def Let_def)
qed

lemma clean_step_plain: "plain b \<Longrightarrow> clean_step rooted out b = out @ [b]"
  by (simp add: clean_step_def plain_def)

lemma path_Clean_plain_last:
  assumes "plain b"
  shows "path_Base (path_Clean (d @ slash # b)) = b"
proof -
  define rooted where "rooted = IsAbs (d @ slash # b)"
  define out where "out = foldl (clean_step rooted) [] (split_slash d)"
  have sp: "split_slash (d @ slash # b) = split_slash d @ [b]"
    using assms by (simp add: split_slash_append split_slash_plain plain_def)
  have cl: "path_Clean (d @ slash # b) =
      (if rooted then slash # join_slash (out @ [b]) else join_slash (out @ [b]))"
    using assms by (simp add: path_Clean_def rooted_def [symmetric] sp out_def clean_step_plain)
  have "\<exists>pre. path_Clean (d @ slash # b) = pre @ b \<and> (pre = [] \<or> last pre = slash)"
  proof (cases "out = []")
    case True
    then show ?thesis by (cases rooted) (simp_all add: cl)
  next
    case False
    then show ?thesis
      by (cases rooted) (simp_all add: cl join_slash_snoc)
  qed
  then obtain pre where "path_Clean (d @ slash # b) = pre @ b" and "pre = [] \<or> last pre = slash"
    by blast
  with assms show ?thesis by (simp add: path_Base_suffix plain_def)
qed

lemma path_Base_Join_plain:
  assumes "plain b" and "d \<noteq> []"
  shows "path_Base (path_Join [d, b]) = b"
  using assms by (simp add: path_Join_def path_Clean_plain_last plain_def)

lemma path_Base_cases:
  "path_Base fn = ''.'' \<or> path_Base fn = ''/'' \<or> path_Base fn = ''..'' \<or> plain (path_Base fn)"
proof (cases "fn = []")
  case True
  then show ?thesis by (simp add: path_Base_def)
next
  case False
  define stripped where "stripped = rev (dropWhile (\<lambda>c. c = slash) (rev fn))"
  define last_elem where "last_elem = rev (takeWhile (\<lambda>c. c \<noteq> slash) (rev stripped))"
  have "slash \<notin> set last_elem"
    unfolding last_elem_def by (auto dest: set_takeWhileD)
  moreover have "path_Base fn = (if last_elem = [] then ''/'' else last_elem)"
    using False by (simp add: path_Base_def Let_def stripped_def last_elem_def)
  ultimately show ?thesis by (auto simp: plain_def)
qed

subsection \<open>Where a joined path leads\<close>

lemma resolve_Join_walk:
  assumes "resolve wd d = Some at" and "x \<noteq> []"
  shows "resolve wd (path_Join [d, x]) = Some (foldl walk at (split_slash x))"
proof -
  from assms(1) have ne: "d \<noteq> []"
    by (auto simp: resolve_def)
  have "resolve wd (path_Join [d, x]) = resolve wd (d @ slash # x)"
    using ne assms(2) by (simp add: path_Join_two resolve_Clean)
  also have "\<dots> = Some (foldl walk at (split_slash x))"
  proof (cases "IsAbs d")
    case True
    with assms(1) ne show ?thesis
      by (simp add: resolve_def IsAbs_append split_slash_append)
  next
    case False
    then have "\<not> IsAbs (d @ slash # x)"
      using ne by (cases d) (simp_all add: IsAbs_def)
    with False assms(1) ne show ?thesis
      by (auto simp: resolve_def split_slash_append split: option.splits)
  qed
  finally show ?thesis .
qed

lemma lookup_butlast_Dir:
  assumes "lookup n at = Some (Dir es)"
  shows "\<exists>es'. lookup n (butlast at) = Some (Dir es')"
  using lookup_parent_is_Dir [OF assms] assms by auto

lemma os_Create_on_Dir:
  assumes "node_at s name = Some (Dir es)"
  shows "\<exists>err. fst (os_Create name s) = Inl err"
  using assms
  by (auto simp: node_at_def os_Create_def Let_def store_on_Dir split: option.splits)

text \<open>
  In a directory, the three base names that are no plain names lead to the directory
  itself or to its parent: nothing can be created there.
\<close>

lemma os_Create_degenerate:
  assumes "node_at s d = Some (Dir es)"
    and "b = ''.'' \<or> b = ''/'' \<or> b = ''..''"
  shows "\<exists>err. fst (os_Create (path_Join [d, b]) s) = Inl err"
proof -
  from assms(1) obtain at where at: "resolve (workdir s) d = Some at"
    and dir: "lookup (disk s) at = Some (Dir es)"
    by (auto simp: node_at_def split: option.splits)
  from assms(2) have ne: "b \<noteq> []" by auto
  have target: "resolve (workdir s) (path_Join [d, b]) = Some (foldl walk at (split_slash b))"
    by (rule resolve_Join_walk [OF at ne])
  from assms(2) have "foldl walk at (split_slash b) = at \<or> foldl walk at (split_slash b) = butlast at"
    by (auto simp: walk_def slash_def)
  with dir lookup_butlast_Dir [OF dir]
  have "\<exists>es'. lookup (disk s) (foldl walk at (split_slash b)) = Some (Dir es')"
    by auto
  with target have "\<exists>es'. node_at s (path_Join [d, b]) = Some (Dir es')"
    by (simp add: node_at_def)
  then show ?thesis using os_Create_on_Dir by blast
qed

subsection \<open>Upload, then download\<close>

lemma downloadRoute_GET: "Method r = ''GET'' \<Longrightarrow> downloadRoute g r s = handleDownloadGet g r s"
  by (simp add: downloadRoute_def routeByMethod_def)

lemma readPart_workdir: "readPart g part s = Inr (res, s1) \<Longrightarrow> workdir s1 = workdir s"
  by (auto simp: readPart_def Let_def logClose_def part_Close_def closeFile_simps node_at_closeFile log_Printf_def
      os_Create_def io_Copy_file_def file_Write_def
      split: option.splits if_splits sum.splits prod.splits node.splits)

lemma uploadParts_workdir:
  "uploadParts g (ps, e) s = Inr (ex, s1) \<Longrightarrow> workdir s1 = workdir s"
proof (induction ps arbitrary: s)
  case Nil
  then show ?case by (auto simp: uploadParts_Nil fail_def split: if_splits)
next
  case (Cons p ps)
  from Cons.prems obtain ok err1 s2 where rp: "readPart g (Some p) s = Inr ((ok, err1), s2)"
    by (auto simp: uploadParts_Cons split: sum.splits)
  then have same: "workdir s2 = workdir s" by (rule readPart_workdir)
  show ?case
  proof (cases "err1 \<noteq> None \<or> ok")
    case True
    with Cons.prems rp same show ?thesis
      by (auto simp: uploadParts_Cons fail_def split: if_splits)
  next
    case False
    with Cons.prems rp have "uploadParts g (ps, e) s2 = Inr (ex, s1)"
      by (simp add: uploadParts_Cons)
    from Cons.IH [OF this] same show ?thesis by simp
  qed
qed

lemma handleUploadPost_workdir:
  assumes "handleUploadPost g r s = Inr s1"
  shows "workdir s1 = workdir s"
proof (cases "MultipartReader r")
  case (Inl err)
  with assms show ?thesis by (auto simp: handleUploadPost_def log_Printf_def)
next
  case (Inr rd)
  obtain ps e where rd: "rd = (ps, e)" by (cases rd)
  from assms Inr rd obtain ex s2 where loop: "uploadParts g (ps, e) s = Inr (ex, s2)"
    by (auto simp: handleUploadPost_def split: sum.splits)
  from uploadParts_workdir [OF this] assms Inr rd loop show ?thesis
    by (cases ex) (auto simp: handleUploadPost_def)
qed

text \<open>
  C3. The output directory and the serve root lead to the same directory. An upload that
  is answered with the redirect has stored the part named \<open>file\<close>; a download with \<open>p\<close>
  set to the base name of its filename then has the bytes of that part as its body and that
  base name as the filename of its Content-Disposition. (The status of the download is 200,
  or 204 when the part was empty.)
\<close>

theorem upload_download_roundtrip:
  assumes "resolve (workdir s) (outputDir g) = resolve (workdir s) (serveDir g)"
    and "node_at s (serveDir g) = Some (Dir es)"
    and "Method r = ''POST''"
    and "MultipartReader r = Inr (pre @ p # rest, e)"
    and "\<forall>q \<in> set pre. FormName q \<noteq> ''file''"
    and "FormName p = ''file''"
    and "resp s = new_response"
    and "uploadRoute g r s = Inr s1"
    and "StatusCode (resp s1) = 302"
    and "Method r' = ''GET''"
    and "URL_Query r' = [(''p'', [path_Base (FileName p)])]"
  shows "case downloadRoute g r' (s1\<lparr>resp := new_response\<rparr>) of
      Inl x \<Rightarrow> False
    | Inr s2 \<Rightarrow>
        Body (resp s2) = Content p \<and>
        Header (resp s2) ''Content-Disposition'' =
          [''attachment; filename='' @ [dquote] @ path_Base (FileName p) @ [dquote]] \<and>
        Header (resp s2) ''Content-Type'' = [''application/octet-stream''] \<and>
        StatusCode (resp s2) = (if Content p = [] then 204 else 200)"
proof -
  define b where "b = path_Base (FileName p)"
  define outputPath where "outputPath = path_Join [outputDir g, b]"
  define fsPath where "fsPath = path_Join [serveDir g, b]"
  from assms(2) obtain at where at: "resolve (workdir s) (serveDir g) = Some at"
    and dir: "lookup (disk s) at = Some (Dir es)"
    by (auto simp: node_at_def split: option.splits)
  have d: "serveDir g \<noteq> []"
    using at by (auto simp: resolve_def)
  have out_dir: "node_at s (outputDir g) = Some (Dir es)"
    using at dir assms(1) by (simp add: node_at_def)
  have j: "path_Join [outputDir g, path_Base (FileName p)] = outputPath"
    by (simp add: outputPath_def b_def)
  from uploadRoute_file_part [OF assms(3-7) j] assms(8)
  have up: "(case fst (os_Create outputPath s) of
           Inl err \<Rightarrow>
             StatusCode (resp s1) = 400 \<and> Body (resp s1) = newline \<and> disk s1 = disk s
         | Inr f \<Rightarrow>
             node_at s1 outputPath = Some (File (Content p)) \<and>
             (if copy_error (ReadErr p) = None
              then StatusCode (resp s1) = 302 \<and> Header (resp s1) ''Location'' = [''/''] \<and>
                   Body (resp s1) = []
              else StatusCode (resp s1) = 400 \<and> Body (resp s1) = newline))"
    by simp
  from up assms(9) obtain f where created: "fst (os_Create outputPath s) = Inr f"
    and stored: "node_at s1 outputPath = Some (File (Content p))"
    by (cases "fst (os_Create outputPath s)") auto
  have pl: "plain b"
  proof (rule ccontr)
    assume "\<not> plain b"
    with path_Base_cases [of "FileName p"] have "b = ''.'' \<or> b = ''/'' \<or> b = ''..''"
      by (simp add: b_def)
    from os_Create_degenerate [OF out_dir this] created show False
      by (simp add: outputPath_def)
  qed
  then have bne: "b \<noteq> []" by (simp add: plain_def)
  have wd: "workdir s1 = workdir s"
    using assms(3,8) by (simp add: uploadRoute_POST handleUploadPost_workdir)
  have "resolve (workdir s) fsPath = resolve (workdir s) outputPath"
    using resolve_Join_walk [OF at bne] resolve_Join_walk [OF assms(1) [unfolded at] bne]
    by (simp add: fsPath_def outputPath_def)
  then have same: "node_at s1 fsPath = node_at s1 outputPath"
    by (simp add: node_at_def wd)
  have q: "getQueryValueOrDefault (URL_Query r') ''p'' ''.'' = b"
    using bne by (simp add: assms(11) b_def [symmetric] getQueryValueOrDefault_single)
  have here: "node_at (s1\<lparr>resp := new_response\<rparr>) fsPath = Some (File (Content p))"
    using stored same by (simp add: node_at_resp)
  have base: "path_Base fsPath = b"
    unfolding fsPath_def by (rule path_Base_Join_plain [OF pl d])
  from handleDownloadGet_outcome [OF q fsPath_def [symmetric], of "s1\<lparr>resp := new_response\<rparr>"]
  show ?thesis
    using here assms(10)
    by (auto simp: downloadRoute_GET base b_def StatusCode_def split: sum.splits)
qed

theorem upload_download_roundtrip_witness:
  "(case uploadRoute example_globals
           (post_request ''/upload'' [form_file ''file'' ''dir/up.txt'' ''hello''] EOF)
           example_state of
      Inl x \<Rightarrow> False
    | Inr s1 \<Rightarrow>
        StatusCode (resp s1) = 302 \<and>
        (case downloadRoute example_globals (get_request ''/download'' [(''p'', [''up.txt''])])
                (s1\<lparr>resp := new_response\<rparr>) of
           Inl x \<Rightarrow> False
         | Inr s2 \<Rightarrow>
             Body (resp s2) = ''hello'' \<and>
             Header (resp s2) ''Content-Disposition'' =
               [''attachment; filename='' @ [dquote] @ ''up.txt'' @ [dquote]] \<and>
             Header (resp s2) ''Content-Type'' = [''application/octet-stream''] \<and>
             StatusCode (resp s2) = 200))"
proof -
  let ?p = "form_file ''file'' ''dir/up.txt'' ''hello''"
  let ?r = "post_request ''/upload'' [?p] EOF"
  let ?s1 = "example_state
      \<lparr>logged := [''Receive upload of file name dir/up.txt. Writing to /srv/up.txt.''],
       syscalls := [Create ''/srv/up.txt''],
       disk := Dir [(''srv'', Dir [(''b.txt'', File ''hello''), (''a'', Dir []),
                                  (''up.txt'', File ''hello'')])],
       resp := new_response\<lparr>Header := (Header new_response)(''Location'' := [''/'']),
                 Code := Some 302\<rparr>\<rparr>"
  have h1: "resolve (workdir example_state) (outputDir example_globals)
      = resolve (workdir example_state) (serveDir example_globals)"
    by (simp add: example_globals_def)
  have h2: "node_at example_state (serveDir example_globals)
      = Some (Dir [(''b.txt'', File ''hello''), (''a'', Dir [])])"
    by (simp add: example_defs os_defs path_defs)
  have h3: "Method ?r = ''POST''"
    by (simp add: post_request_def)
  have h4: "MultipartReader ?r = Inr ([] @ ?p # [], EOF)"
    by (simp add: post_request_def)
  have h5: "\<forall>q \<in> set []. FormName q \<noteq> ''file''"
    by simp
  have h6: "FormName ?p = ''file''"
    by (simp add: form_file_def)
  have h7: "resp example_state = new_response"
    by (simp add: example_state_def)
  have h8: "uploadRoute example_globals ?r example_state = Inr ?s1"
    by (simp add: uploadRoute_POST handleUploadPost_def uploadParts_Cons readPart_def
      io_Copy_file_def copy_error_def redirect_POST
      example_defs os_defs path_defs Let_def part_Close_def)
  have h9: "StatusCode (resp ?s1) = 302"
    by (simp add: StatusCode_def)
  have h10: "Method (get_request ''/download'' [(''p'', [''up.txt''])]) = ''GET''"
    by (simp add: get_request_def)
  have h11: "URL_Query (get_request ''/download'' [(''p'', [''up.txt''])])
      = [(''p'', [path_Base (FileName ?p)])]"
    by (simp add: get_request_def form_file_def path_defs)
  show ?thesis
    using upload_download_roundtrip [OF h1 h2 h3 h4 h5 h6 h7 h8 h9 h10 h11] h8
    by (auto simp: form_file_def path_defs StatusCode_def split: sum.splits)
qed

end
